theory Spec2Isabelle
  imports Complex_Main
begin

section \<open>The travel planner's Streamlit front end\<close>

text \<open>
  A shallow embedding of \<^verbatim>\<open>samples/multi-agent-travel-planner/streamlit_app.py\<close>.
  The script is a sequence of Streamlit calls around one call of the compiled workflow.
  Every call that draws something, and every call into the workflow or the monitoring
  libraries, is recorded as an \<open>action\<close>; a run of \<open>main\<close> is the list of its
  actions together with its outcome: a normal return or an exception that leaves
  \<open>main\<close>. What the user entered and what the libraries answered is the \<open>env\<close>.
\<close>

subsection \<open>Python values\<close>

text \<open>
  An \<open>exn\<close> is a raised instance of Python's \<^verbatim>\<open>Exception\<close>, which is what both
  handlers of the script (\<^verbatim>\<open>except Exception as e\<close>) catch. \<open>Raised msg\<close> is an
  exception coming out of library or workflow code.
\<close>

datatype exn =
    StopIteration
  | UnboundLocalError string
  | KeyError string
  | IndexError
  | TypeError
  | StreamlitAPIException
  | Raised string

text \<open>
  What a dictionary holds under one key: nothing, \<^verbatim>\<open>None\<close>, or a value.
  \<^verbatim>\<open>d.get(k)\<close> answers \<^verbatim>\<open>None\<close> in the first two cases, \<^verbatim>\<open>d[k]\<close> raises in the
  first.
\<close>

datatype 'a entry = Missing | PyNone | Value 'a

definition get :: "'a entry \<Rightarrow> 'a option" where
  "get e = (case e of Missing \<Rightarrow> None | PyNone \<Rightarrow> None | Value v \<Rightarrow> Some v)"

definition get_default :: "'a entry \<Rightarrow> 'a \<Rightarrow> 'a option" where
  "get_default e d = (case e of Missing \<Rightarrow> Some d | PyNone \<Rightarrow> None | Value v \<Rightarrow> Some v)"

definition getitem :: "string \<Rightarrow> 'a entry \<Rightarrow> exn + 'a option" where
  "getitem k e = (case e of Missing \<Rightarrow> Inl (KeyError k) | PyNone \<Rightarrow> Inr None | Value v \<Rightarrow> Inr (Some v))"

text \<open>Truthiness of an optional string or list: \<^verbatim>\<open>None\<close> and the empty sequence are false.\<close>

definition truthy :: "'a list option \<Rightarrow> bool" where
  "truthy v = (case v of None \<Rightarrow> False | Some xs \<Rightarrow> xs \<noteq> [])"

text \<open>\<^verbatim>\<open>xs[-1]\<close>, where \<^verbatim>\<open>xs\<close> is a list or \<^verbatim>\<open>None\<close>.\<close>

definition last_item :: "'a list option \<Rightarrow> exn + 'a" where
  "last_item v =
     (case v of
        None \<Rightarrow> Inl TypeError
      | Some xs \<Rightarrow> if xs = [] then Inl IndexError else Inr (last xs))"

text \<open>
  The \<^verbatim>\<open>content\<close> of a message is a string or a list of content blocks; a block
  is a piece of text or something else (an image, a tool call).
\<close>

datatype block = Text_block string | Other_block

datatype content = Text string | Blocks "block list"

text \<open>
  An element of a message list: a \<^verbatim>\<open>BaseMessage\<close> with its \<^verbatim>\<open>content\<close>, or an object
  of another class.
\<close>

datatype message = BaseMessage content | OtherObject

text \<open>Dates are proleptic ordinals (\<^verbatim>\<open>date.toordinal()\<close>); adding a \<^verbatim>\<open>timedelta(days=n)\<close> adds \<open>n\<close>.\<close>

type_synonym date = int

subsection \<open>\<^verbatim>\<open>str.replace\<close> and \<^verbatim>\<open>str.title\<close> on ASCII text\<close>

definition is_lower :: "char \<Rightarrow> bool" where
  "is_lower c = (97 \<le> (of_char c :: nat) \<and> (of_char c :: nat) \<le> 122)"

definition is_upper :: "char \<Rightarrow> bool" where
  "is_upper c = (65 \<le> (of_char c :: nat) \<and> (of_char c :: nat) \<le> 90)"

definition to_upper :: "char \<Rightarrow> char" where
  "to_upper c = (if is_lower c then char_of ((of_char c :: nat) - 32) else c)"

definition to_lower :: "char \<Rightarrow> char" where
  "to_lower c = (if is_upper c then char_of ((of_char c :: nat) + 32) else c)"

text \<open>
  \<^verbatim>\<open>s.title()\<close>: a letter that follows a letter is lowered, any other letter is raised;
  \<open>prev\<close> says whether the character before was a letter.
\<close>

fun title_from :: "bool \<Rightarrow> string \<Rightarrow> string" where
  "title_from prev [] = []"
| "title_from prev (c # cs) =
     (if is_lower c \<or> is_upper c
      then (if prev then to_lower c else to_upper c) # title_from True cs
      else c # title_from False cs)"

definition title :: "string \<Rightarrow> string" where
  "title s = title_from False s"

definition replace_char :: "char \<Rightarrow> char \<Rightarrow> string \<Rightarrow> string" where
  "replace_char a b s = map (\<lambda>c. if c = a then b else c) s"

definition format_agent_name :: "string \<Rightarrow> string" where
  "format_agent_name agent_name = title (replace_char (CHR ''_'') (CHR '' '') agent_name)"

text \<open>\<^verbatim>\<open>str(n)\<close> of an integer, in decimal.\<close>

function str_nat :: "nat \<Rightarrow> string" where
  "str_nat n =
     (if n < 10 then [char_of (48 + n)]
      else str_nat (n div 10) @ [char_of (48 + n mod 10)])"
  by pat_completeness auto
termination
  by (relation "measure (\<lambda>n. n)") auto

declare str_nat.simps [simp del]

definition str_int :: "int \<Rightarrow> string" where
  "str_int i = (if i < 0 then CHR ''-'' # str_nat (nat (- i)) else str_nat (nat i))"

subsection \<open>The planner state, the run configuration and the event stream\<close>

text \<open>
  \<^verbatim>\<open>PlannerState\<close> is a dictionary with these keys. \<^verbatim>\<open>initial_state\<close> has them all;
  the dictionary a workflow node hands back (\<^verbatim>\<open>node_state\<close>) may lack any of them.
\<close>

record planner_state =
  messages :: "message list entry"
  user_request :: "string entry"
  session_id :: "string entry"
  origin :: "string entry"
  destination :: "string entry"
  departure :: "string entry"
  return_date :: "string entry"
  travellers :: "int entry"
  flight_summary :: "string entry"
  hotel_summary :: "string entry"
  activities_summary :: "string entry"
  final_itinerary :: "string entry"
  current_agent :: "string entry"

record config =
  configurable_thread_id :: string
  metadata_session_id :: string
  metadata_thread_id :: string
  recursion_limit :: int

text \<open>
  One item of \<^verbatim>\<open>app.stream(...)\<close> is a dictionary from node names to node states, here
  the list of its items in order. The stream as a whole is the items it yields and, if
  it does not end normally, the exception it raises after them.
\<close>

type_synonym step = "(string \<times> planner_state) list"

type_synonym event_stream = "step list \<times> exn option"

record dest_info =
  country :: string
  highlights :: "string list"

subsection \<open>Actions and the environment\<close>

datatype action =
    Set_page_config
  | Title
  | Markdown_intro
  | Sidebar_header
  | Subheader_dates
  | Subheader_requests
  | Error_dates
  | Info_route string string
  | Info_duration int
  | Info_travelers int
  | Markdown_rule
  | Call_configure_azure_monitor
  | Call_configure_otlp_tracing
  | Warning_monitoring exn
  | Call_build_workflow
  | Call_compile
  | Progress rat
  | Status_placeholder
  | Subheader_agents
  | Agent_label string
  | Agent_placeholder string
  | Call_stream planner_state config
  | Status_working string
  | Success_preview string content
  | Status_complete
  | Subheader_itinerary
  | Expander_itinerary string
  | Download_button string string string
  | Subheader_summaries
  | Info_flight
  | Info_hotel
  | Info_activities
  | Write "string option"
  | Error_planning exn
  | Info_check_environment
  | Markdown_how_it_works
  | Subheader_popular
  | Markdown_destination string string string string string

text \<open>
  The environment of one script run. \<open>clock i\<close> is the date of the \<open>i\<close>-th
  \<^verbatim>\<open>datetime.now()\<close>. The entries are what the user committed in the bounded widgets
  (\<open>None\<close>: the widget was left alone); \<open>origin_selected\<close>, \<open>destination_selected\<close> and
  \<open>custom_request_text\<close> are what the select boxes and the text area return. The two
  date formatters, the monitoring calls, \<^verbatim>\<open>uuid4\<close>, \<^verbatim>\<open>build_workflow\<close>,
  \<^verbatim>\<open>workflow.compile\<close>, \<^verbatim>\<open>app.stream\<close> and \<^verbatim>\<open>DESTINATIONS\<close> are library or
  imported code: for a call that can fail the field is the exception it raises, if any.
\<close>

record env =
  clock :: "nat \<Rightarrow> date"
  origin_selected :: string
  destination_selected :: string
  departure_entry :: "date option"
  return_entry :: "date option"
  travelers_entry :: "int option"
  custom_request_text :: string
  plan_button :: bool
  strftime_ymd :: "date \<Rightarrow> string"
  str_date :: "date \<Rightarrow> string"
  configure_azure_monitor :: "exn option"
  configure_otlp_tracing :: "exn option"
  uuid4 :: string
  build_workflow :: "exn option"
  compile :: "exn option"
  stream :: "planner_state \<Rightarrow> config \<Rightarrow> event_stream"
  DESTINATIONS :: "(string \<times> dest_info) list"

text \<open>
  Streamlit's bounded inputs: the widget answers its default \<^verbatim>\<open>value\<close> until the user
  commits an entry, and an entry outside \<^verbatim>\<open>[min_value, max_value]\<close> is never committed.
  A widget whose default lies outside its bounds raises instead of rendering. The number
  input of the script has the constant default 2 within its bounds 1 and 10; the defaults
  and bounds of the date inputs depend on the clock and on the departure date.
\<close>

definition number_input :: "int \<Rightarrow> int \<Rightarrow> int \<Rightarrow> int option \<Rightarrow> int" where
  "number_input min_value max_value value entry =
     (case entry of
        None \<Rightarrow> value
      | Some v \<Rightarrow> if min_value \<le> v \<and> v \<le> max_value then v else value)"

definition date_value :: "date \<Rightarrow> date \<Rightarrow> date \<Rightarrow> date option \<Rightarrow> date" where
  "date_value value min_value max_value entry =
     (case entry of
        None \<Rightarrow> value
      | Some v \<Rightarrow> if min_value \<le> v \<and> v \<le> max_value then v else value)"

definition date_input :: "date \<Rightarrow> date \<Rightarrow> date \<Rightarrow> date option \<Rightarrow> exn + date" where
  "date_input value min_value max_value entry =
     (if min_value \<le> value \<and> value \<le> max_value
      then Inr (date_value value min_value max_value entry)
      else Inl StreamlitAPIException)"

subsection \<open>Computations: actions, then a value or an exception\<close>

type_synonym 'a comp = "action list \<times> (exn + 'a)"

definition ret :: "'a \<Rightarrow> 'a comp" where
  "ret v = ([], Inr v)"

definition throw :: "exn \<Rightarrow> 'a comp" where
  "throw e = ([], Inl e)"

definition lift :: "exn + 'a \<Rightarrow> 'a comp" where
  "lift r = ([], r)"

definition emits :: "action list \<Rightarrow> unit comp" where
  "emits as = (as, Inr ())"

text \<open>A call of library code: recorded, then it returns or raises.\<close>

definition call :: "action \<Rightarrow> exn option \<Rightarrow> unit comp" where
  "call a outcome = ([a], case outcome of None \<Rightarrow> Inr () | Some e \<Rightarrow> Inl e)"

text \<open>Sequencing: an exception skips the rest, what was drawn before it stays drawn.\<close>

definition seq :: "'a comp \<Rightarrow> ('a \<Rightarrow> 'b comp) \<Rightarrow> 'b comp" where
  "seq m f =
     (case m of
        (tr, Inl e) \<Rightarrow> (tr, Inl e)
      | (tr, Inr v) \<Rightarrow> (case f v of (tr', r) \<Rightarrow> (tr @ tr', r)))"

text \<open>\<^verbatim>\<open>try: body except Exception as e: handler\<close>.\<close>

definition try_except :: "'a comp \<Rightarrow> (exn \<Rightarrow> 'a comp) \<Rightarrow> 'a comp" where
  "try_except body handler =
     (case body of
        (tr, Inr v) \<Rightarrow> (tr, Inr v)
      | (tr, Inl e) \<Rightarrow> (case handler e of (tr', r) \<Rightarrow> (tr @ tr', r)))"

subsection \<open>The script\<close>

text \<open>\<^verbatim>\<open>setup_monitoring\<close>: both calls inside one \<^verbatim>\<open>try\<close>, the handler warns.\<close>

definition setup_monitoring :: "env \<Rightarrow> unit comp" where
  "setup_monitoring e =
     try_except
       (seq (call Call_configure_azure_monitor (configure_azure_monitor e))
          (\<lambda>_. call Call_configure_otlp_tracing (configure_otlp_tracing e)))
       (\<lambda>ex. emits [Warning_monitoring ex])"

text \<open>
  The values of the sidebar's bounded widgets: once the sidebar has rendered, the local
  variables \<^verbatim>\<open>departure_date\<close>, \<^verbatim>\<open>return_date\<close> and \<^verbatim>\<open>travelers\<close> hold them.
\<close>

definition min_date :: "env \<Rightarrow> date" where
  "min_date e = clock e 0"

definition max_date :: "env \<Rightarrow> date" where
  "max_date e = clock e 1 + 365"

definition departure_date :: "env \<Rightarrow> date" where
  "departure_date e =
     date_value (clock e 2 + 21) (min_date e) (max_date e) (departure_entry e)"

definition return_date_input :: "env \<Rightarrow> date" where
  "return_date_input e =
     date_value (departure_date e + 5) (departure_date e) (max_date e) (return_entry e)"

definition travelers :: "env \<Rightarrow> int" where
  "travelers e = number_input 1 10 2 (travelers_entry e)"

definition make_user_request :: "env \<Rightarrow> string" where
  "make_user_request e =
     ''We're planning a trip to '' @ destination_selected e @ '' from '' @ origin_selected e
     @ '' departing '' @ strftime_ymd e (departure_date e)
     @ '' and returning '' @ strftime_ymd e (return_date_input e)
     @ '' for '' @ str_int (travelers e) @ '' travelers. '' @ custom_request_text e"

definition initial_state :: "env \<Rightarrow> planner_state" where
  "initial_state e =
     \<lparr> messages = Value [BaseMessage (Text (make_user_request e))],
       user_request = Value (make_user_request e),
       session_id = Value (uuid4 e),
       origin = Value (origin_selected e),
       destination = Value (destination_selected e),
       departure = Value (strftime_ymd e (departure_date e)),
       return_date = Value (strftime_ymd e (return_date_input e)),
       travellers = Value (travelers e),
       flight_summary = PyNone,
       hotel_summary = PyNone,
       activities_summary = PyNone,
       final_itinerary = PyNone,
       current_agent = Value ''start'' \<rparr>"

definition make_config :: "env \<Rightarrow> config" where
  "make_config e =
     \<lparr> configurable_thread_id = uuid4 e,
       metadata_session_id = uuid4 e,
       metadata_thread_id = uuid4 e,
       recursion_limit = 10 \<rparr>"

definition agent_steps :: "string list" where
  "agent_steps =
     [''coordinator'', ''flight_specialist'', ''hotel_specialist'',
      ''activity_specialist'', ''plan_synthesizer'']"

text \<open>
  The loop that draws one row per agent and fills \<^verbatim>\<open>agent_containers\<close>; a container
  is known by the number \<^verbatim>\<open>enumerate\<close> gave its agent.
\<close>

fun create_containers ::
  "(nat \<times> string) list \<Rightarrow> (string \<rightharpoonup> nat) \<Rightarrow> (string \<rightharpoonup> nat) comp" where
  "create_containers [] agent_containers = ret agent_containers"
| "create_containers ((i, agent) # rest) agent_containers =
     seq (emits [Agent_label (format_agent_name agent), Agent_placeholder agent])
       (\<lambda>_. create_containers rest (agent_containers(agent \<mapsto> i)))"

text \<open>The local variables of the streaming loop that outlive an iteration.\<close>

record locals =
  step_count :: nat
  node_state :: "planner_state option"

text \<open>
  Line 222. \<^verbatim>\<open>len\<close> and the slice count characters of a string and blocks of a list;
  a list and the string \<^verbatim>\<open>"..."\<close> cannot be concatenated.
\<close>

definition make_preview :: "content \<Rightarrow> exn + content" where
  "make_preview content =
     (case content of
        Text s \<Rightarrow> Inr (Text (if length s > 300 then take 300 s @ ''...'' else s))
      | Blocks bs \<Rightarrow> if length bs > 300 then Inl TypeError else Inr (Blocks bs))"

text \<open>Lines 212 to 223: the preview of the newest message of one node state.\<close>

definition show_latest_message ::
  "(string \<rightharpoonup> nat) \<Rightarrow> string \<Rightarrow> planner_state \<Rightarrow> unit comp" where
  "show_latest_message agent_containers node_name ns =
     (if truthy (get (messages ns)) then
        seq (lift (getitem ''messages'' (messages ns))) (\<lambda>ms.
        seq (lift (last_item ms)) (\<lambda>last_message.
          (case last_message of
             BaseMessage content \<Rightarrow>
               (if agent_containers node_name \<noteq> None
                then seq (lift (make_preview content))
                       (\<lambda>preview. emits [Success_preview node_name preview])
                else ret ())
           | OtherObject \<Rightarrow> ret ())))
      else ret ())"

text \<open>One iteration of \<^verbatim>\<open>for step in app.stream(...)\<close>, lines 204 to 223.\<close>

definition loop_body ::
  "(string \<rightharpoonup> nat) \<Rightarrow> nat \<Rightarrow> step \<Rightarrow> locals \<Rightarrow> locals comp" where
  "loop_body agent_containers total_steps step l =
     (case step of
        [] \<Rightarrow> throw StopIteration
      | (node_name, ns) # _ \<Rightarrow>
          (let count = step_count l + 1;
               progress = min (of_nat count / of_nat total_steps) (1 :: rat)
           in seq (emits [Progress progress, Status_working (format_agent_name node_name)])
                (\<lambda>_. seq (show_latest_message agent_containers node_name ns)
                (\<lambda>_. ret \<lparr> step_count = count, node_state = Some ns \<rparr>))))"

text \<open>
  The loop over the stream: the items in order, then the stream's end or the exception
  it raises.
\<close>

fun for_loop ::
  "(string \<rightharpoonup> nat) \<Rightarrow> nat \<Rightarrow> step list \<Rightarrow> exn option \<Rightarrow> locals \<Rightarrow> locals comp" where
  "for_loop agent_containers total_steps [] failure l =
     (case failure of None \<Rightarrow> ret l | Some ex \<Rightarrow> throw ex)"
| "for_loop agent_containers total_steps (step # steps) failure l =
     seq (loop_body agent_containers total_steps step l)
       (\<lambda>l'. for_loop agent_containers total_steps steps failure l')"

text \<open>Reading a local variable that may never have been assigned.\<close>

definition read_local :: "string \<Rightarrow> 'a option \<Rightarrow> 'a comp" where
  "read_local name v = (case v of None \<Rightarrow> throw (UnboundLocalError name) | Some x \<Rightarrow> ret x)"

text \<open>One column of the agent summaries, lines 255 to 268.\<close>

definition show_summary :: "action \<Rightarrow> string \<Rightarrow> string entry \<Rightarrow> unit comp" where
  "show_summary heading key slot =
     (if truthy (get slot)
      then seq (emits [heading]) (\<lambda>_. seq (lift (getitem key slot)) (\<lambda>v. emits [Write v]))
      else ret ())"

text \<open>Lines 230 to 268: the itinerary, its download and the three summaries.\<close>

definition show_itinerary :: "env \<Rightarrow> planner_state \<Rightarrow> unit comp" where
  "show_itinerary e final_state =
     (case get_default (final_itinerary final_state) [] of
        None \<Rightarrow> ret ()
      | Some itinerary \<Rightarrow>
          if itinerary \<noteq> [] then
            seq (emits [Markdown_rule, Subheader_itinerary, Expander_itinerary itinerary,
                        Download_button itinerary (destination_selected e)
                          (str_date e (departure_date e)),
                        Markdown_rule, Subheader_summaries]) (\<lambda>_.
            seq (show_summary Info_flight ''flight_summary'' (flight_summary final_state)) (\<lambda>_.
            seq (show_summary Info_hotel ''hotel_summary'' (hotel_summary final_state)) (\<lambda>_.
            show_summary Info_activities ''activities_summary''
              (activities_summary final_state))))
          else ret ())"

text \<open>The body of the \<^verbatim>\<open>try\<close>, lines 200 to 268.\<close>

definition run_workflow ::
  "env \<Rightarrow> (string \<rightharpoonup> nat) \<Rightarrow> planner_state \<Rightarrow> config \<Rightarrow> unit comp" where
  "run_workflow e agent_containers init cfg =
     (let total_steps = length agent_steps in
      seq (emits [Call_stream init cfg]) (\<lambda>_.
      seq (for_loop agent_containers total_steps (fst (stream e init cfg))
             (snd (stream e init cfg)) \<lparr> step_count = 0, node_state = None \<rparr>) (\<lambda>l.
      seq (emits [Progress 1, Status_complete]) (\<lambda>_.
      seq (read_local ''node_state'' (node_state l)) (\<lambda>final_state.
      show_itinerary e final_state)))))"

text \<open>
  Lines 127 to 272: what the button does once the dates are accepted. The list
  \<^verbatim>\<open>st.session_state.workflow_steps\<close> of lines 145 and 146 is created and never read;
  it is left out.
\<close>

definition plan_trip :: "env \<Rightarrow> unit comp" where
  "plan_trip e =
     seq (emits [Info_route (origin_selected e) (destination_selected e),
                 Info_duration (return_date_input e - departure_date e),
                 Info_travelers (travelers e),
                 Markdown_rule]) (\<lambda>_.
     seq (setup_monitoring e) (\<lambda>_.
     seq (call Call_build_workflow (build_workflow e)) (\<lambda>_.
     seq (call Call_compile (compile e)) (\<lambda>_.
     seq (emits [Progress 0, Status_placeholder, Subheader_agents]) (\<lambda>_.
     seq (create_containers (enumerate 0 agent_steps) Map.empty) (\<lambda>agent_containers.
     try_except
       (run_workflow e agent_containers (initial_state e) (make_config e))
       (\<lambda>ex. emits [Error_planning ex, Info_check_environment])))))))"

text \<open>Lines 298 to 306: one card for each of the first three destinations.\<close>

fun destination_cards :: "(string \<times> dest_info) list \<Rightarrow> unit comp" where
  "destination_cards [] = ret ()"
| "destination_cards ((dest, info) # rest) =
     (case highlights info of
        h0 # h1 # h2 # _ \<Rightarrow>
          seq (emits [Markdown_destination (title dest) (country info) h0 h1 h2])
            (\<lambda>_. destination_cards rest)
      | _ \<Rightarrow> throw IndexError)"

definition show_welcome :: "env \<Rightarrow> unit comp" where
  "show_welcome e =
     seq (emits [Markdown_how_it_works, Markdown_rule, Subheader_popular])
       (\<lambda>_. destination_cards (take 3 (DESTINATIONS e)))"

text \<open>
  Lines 58 to 118: the sidebar. The return date input takes its default and its lower
  bound from the departure date just read; either date input may raise.
\<close>

definition sidebar :: "env \<Rightarrow> (date \<times> date) comp" where
  "sidebar e =
     seq (emits [Sidebar_header, Subheader_dates]) (\<lambda>_.
     seq (lift (date_input (clock e 2 + 21) (min_date e) (max_date e) (departure_entry e)))
       (\<lambda>departure.
     seq (lift (date_input (departure + 5) departure (max_date e) (return_entry e)))
       (\<lambda>returning.
     seq (emits [Subheader_requests]) (\<lambda>_. ret (departure, returning)))))"

definition main :: "env \<Rightarrow> unit comp" where
  "main e =
     seq (emits [Set_page_config, Title, Markdown_intro]) (\<lambda>_.
     seq (sidebar e) (\<lambda>dates.
       if plan_button e then
         (if snd dates \<le> fst dates
          then emits [Error_dates]
          else plan_trip e)
       else show_welcome e))"

subsection \<open>Reading a run\<close>

text \<open>The calls of \<^verbatim>\<open>app.stream\<close> in a run, with their arguments.\<close>

fun stream_calls :: "action list \<Rightarrow> (planner_state \<times> config) list" where
  "stream_calls [] = []"
| "stream_calls (Call_stream s c # as) = (s, c) # stream_calls as"
| "stream_calls (a # as) = stream_calls as"

text \<open>The calls of \<^verbatim>\<open>build_workflow\<close> and \<^verbatim>\<open>workflow.compile\<close> in a run.\<close>

fun build_calls :: "action list \<Rightarrow> action list" where
  "build_calls [] = []"
| "build_calls (Call_build_workflow # as) = Call_build_workflow # build_calls as"
| "build_calls (Call_compile # as) = Call_compile # build_calls as"
| "build_calls (a # as) = build_calls as"

text \<open>The values the progress bar was given, in order.\<close>

fun progress_values :: "action list \<Rightarrow> rat list" where
  "progress_values [] = []"
| "progress_values (Progress p # as) = p # progress_values as"
| "progress_values (a # as) = progress_values as"

text \<open>What is drawn or called once for each item of the stream.\<close>

fun step_actions :: "action list \<Rightarrow> action list" where
  "step_actions [] = []"
| "step_actions (Status_working n # as) = Status_working n # step_actions as"
| "step_actions (Success_preview n p # as) = Success_preview n p # step_actions as"
| "step_actions (a # as) = step_actions as"

text \<open>The actions of the monitoring hookup.\<close>

fun is_monitoring :: "action \<Rightarrow> bool" where
  "is_monitoring Call_configure_azure_monitor = True"
| "is_monitoring Call_configure_otlp_tracing = True"
| "is_monitoring (Warning_monitoring ex) = True"
| "is_monitoring a = False"

text \<open>The sidebar raises nothing.\<close>

definition sidebar_renders :: "env \<Rightarrow> bool" where
  "sidebar_renders e = (case snd (sidebar e) of Inl ex \<Rightarrow> False | Inr dates \<Rightarrow> True)"

text \<open>The number of characters of text in a content.\<close>

fun block_length :: "block \<Rightarrow> nat" where
  "block_length (Text_block t) = length t"
| "block_length Other_block = 0"

fun text_length :: "content \<Rightarrow> nat" where
  "text_length (Text s) = length s"
| "text_length (Blocks bs) = sum_list (map block_length bs)"

text \<open>The page header and the sidebar as drawn when the sidebar renders.\<close>

definition page_top :: "action list" where
  "page_top =
     [Set_page_config, Title, Markdown_intro, Sidebar_header, Subheader_dates,
      Subheader_requests]"

text \<open>What the streaming loop draws.\<close>

fun loop_action :: "action \<Rightarrow> bool" where
  "loop_action (Progress p) = True"
| "loop_action (Status_working n) = True"
| "loop_action (Success_preview n p) = True"
| "loop_action a = False"

text \<open>What the itinerary section draws.\<close>

fun itinerary_action :: "action \<Rightarrow> bool" where
  "itinerary_action Markdown_rule = True"
| "itinerary_action Subheader_itinerary = True"
| "itinerary_action (Expander_itinerary t) = True"
| "itinerary_action (Download_button d n t) = True"
| "itinerary_action Subheader_summaries = True"
| "itinerary_action Info_flight = True"
| "itinerary_action Info_hotel = True"
| "itinerary_action Info_activities = True"
| "itinerary_action (Write v) = True"
| "itinerary_action a = False"

text \<open>
  The loop body gets through a stream item: the dictionary is not empty, so that
  \<^verbatim>\<open>next(iter(step.items()))\<close> finds its first item, and drawing the preview raises
  nothing.
\<close>

definition item_handled :: "(string \<rightharpoonup> nat) \<Rightarrow> step \<Rightarrow> bool" where
  "item_handled ac step =
     (case step of
        [] \<Rightarrow> False
      | (node_name, ns) # _ \<Rightarrow> snd (show_latest_message ac node_name ns) = Inr ())"

text \<open>
  The number of stream items at which the progress bar is advanced: the items the loop
  body gets through and, when the loop stops at an item that is not empty, that item too,
  since the bar is advanced before the preview is drawn.
\<close>

fun progress_count :: "(string \<rightharpoonup> nat) \<Rightarrow> step list \<Rightarrow> nat" where
  "progress_count ac [] = 0"
| "progress_count ac (step # steps) =
     (if step = [] then 0
      else if item_handled ac step then Suc (progress_count ac steps)
      else 1)"

text \<open>The exception that stops the loop at the first item the loop body does not get through.\<close>

fun loop_exception :: "(string \<rightharpoonup> nat) \<Rightarrow> step list \<Rightarrow> exn" where
  "loop_exception ac [] = StopIteration"
| "loop_exception ac (step # steps) =
     (if item_handled ac step then loop_exception ac steps
      else if step = [] then StopIteration
      else TypeError)"

text \<open>\<^verbatim>\<open>min(step_count / total_steps, 1.0)\<close> at step count \<open>k\<close>.\<close>

definition shown_progress :: "nat \<Rightarrow> nat \<Rightarrow> rat" where
  "shown_progress t k = min (of_nat k / of_nat t) 1"

text \<open>The streaming loop as \<^verbatim>\<open>main\<close> runs it: from step count 0, with \<^verbatim>\<open>node_state\<close> unassigned.\<close>

definition the_loop :: "env \<Rightarrow> (string \<rightharpoonup> nat) \<Rightarrow> planner_state \<Rightarrow> config \<Rightarrow> locals comp" where
  "the_loop e ac init cfg =
     for_loop ac (length agent_steps) (fst (stream e init cfg)) (snd (stream e init cfg))
       \<lparr> step_count = 0, node_state = None \<rparr>"

text \<open>The rows drawn while the containers are created.\<close>

definition container_rows :: "(nat \<times> string) list \<Rightarrow> action list" where
  "container_rows xs =
     concat (map (\<lambda>(i, agent). [Agent_label (format_agent_name agent), Agent_placeholder agent]) xs)"

text \<open>\<^verbatim>\<open>agent_containers\<close> after the loop that creates the containers.\<close>

definition filled :: "(nat \<times> string) list \<Rightarrow> (string \<rightharpoonup> nat) \<Rightarrow> (string \<rightharpoonup> nat)" where
  "filled xs m = fold (\<lambda>(i, agent) m. m(agent \<mapsto> i)) xs m"

text \<open>The sidebar rendered, the button was pressed and the dates passed the check of line 123.\<close>

definition dates_accepted :: "env \<Rightarrow> bool" where
  "dates_accepted e =
     (sidebar_renders e \<and> plan_button e \<and> \<not> return_date_input e \<le> departure_date e)"

text \<open>
  The run got past \<^verbatim>\<open>build_workflow()\<close> and \<^verbatim>\<open>workflow.compile()\<close>: the sidebar
  rendered, the dates were accepted and neither call raised.
\<close>

definition workflow_built :: "env \<Rightarrow> bool" where
  "workflow_built e = (dates_accepted e \<and> build_workflow e = None \<and> compile e = None)"

text \<open>The three columns of the trip summary and the rule below them, lines 131 to 139.\<close>

definition trip_summary :: "env \<Rightarrow> action list" where
  "trip_summary e =
     [Info_route (origin_selected e) (destination_selected e),
      Info_duration (return_date_input e - departure_date e),
      Info_travelers (travelers e),
      Markdown_rule]"

text \<open>\<^verbatim>\<open>agent_containers\<close> as the streaming loop finds it.\<close>

definition containers :: "string \<rightharpoonup> nat" where
  "containers = filled (enumerate 0 agent_steps) Map.empty"

text \<open>The number of stream items at which the loop of \<^verbatim>\<open>main\<close> advances the progress bar.\<close>

definition handled :: "step list \<Rightarrow> nat" where
  "handled steps = progress_count containers steps"

text \<open>The \<^verbatim>\<open>try\<close> statement of lines 199 to 272.\<close>

definition consume :: "env \<Rightarrow> unit comp" where
  "consume e =
     try_except
       (run_workflow e containers (initial_state e) (make_config e))
       (\<lambda>ex. emits [Error_planning ex, Info_check_environment])"

text \<open>What \<^verbatim>\<open>app.stream(initial_state, config=config)\<close> yields in this run.\<close>

definition stream_items :: "env \<Rightarrow> step list" where
  "stream_items e = fst (stream e (initial_state e) (make_config e))"

text \<open>The exception with which the stream of this run ends, if it does not end normally.\<close>

definition stream_failure :: "env \<Rightarrow> exn option" where
  "stream_failure e = snd (stream e (initial_state e) (make_config e))"

text \<open>
  The loop runs to the end of the stream: the loop body gets through every item and the
  stream raises nothing.
\<close>

definition stream_completes :: "env \<Rightarrow> bool" where
  "stream_completes e =
     (list_all (item_handled containers) (stream_items e) \<and> stream_failure e = None)"

text \<open>What one column of the agent summaries shows for a slot.\<close>

definition summary_column :: "action \<Rightarrow> string entry \<Rightarrow> action list" where
  "summary_column heading slot = (if truthy (get slot) then [heading, Write (get slot)] else [])"

text \<open>The same run with other outcomes of the two monitoring calls.\<close>

definition with_monitoring :: "env \<Rightarrow> exn option \<Rightarrow> exn option \<Rightarrow> env" where
  "with_monitoring e m1 m2 = e \<lparr> configure_azure_monitor := m1, configure_otlp_tracing := m2 \<rparr>"

text \<open>
  The step count of the streaming loop once it has been through the first
  \<open>k\<close> items.
\<close>

definition count_after :: "step list \<Rightarrow> nat \<Rightarrow> exn + nat" where
  "count_after steps k =
     map_sum (\<lambda>ex. ex) step_count
       (snd (for_loop containers (length agent_steps) (take k steps) None
               \<lparr> step_count = 0, node_state = None \<rparr>))"

subsection \<open>Sample runs\<close>

text \<open>A run with the return date entered equal to the default departure date.\<close>

definition equal_dates_env :: env where
  "equal_dates_env =
     \<lparr> clock = (\<lambda>i. 740000),
       origin_selected = ''Seattle'',
       destination_selected = ''Tokyo'',
       departure_entry = None,
       return_entry = Some 740021,
       travelers_entry = None,
       custom_request_text = ''boutique hotel'',
       plan_button = True,
       strftime_ymd = str_int,
       str_date = str_int,
       configure_azure_monitor = None,
       configure_otlp_tracing = None,
       uuid4 = ''session-1'',
       build_workflow = None,
       compile = None,
       stream = (\<lambda>s c. ([], None)),
       DESTINATIONS = [] \<rparr>"

text \<open>A run with the default dates whose stream yields nothing and ends.\<close>

definition no_events_env :: env where
  "no_events_env = equal_dates_env \<lparr> return_entry := None \<rparr>"

text \<open>The same run, with \<^verbatim>\<open>build_workflow()\<close> raising.\<close>

definition build_failure_env :: env where
  "build_failure_env = no_events_env \<lparr> build_workflow := Some (Raised ''no model deployment'') \<rparr>"

text \<open>A node state whose newest message has 301 characters.\<close>

definition long_message_state :: planner_state where
  "long_message_state =
     \<lparr> messages = Value [BaseMessage (Text ''searching''),
                          BaseMessage (Text (replicate 301 (CHR ''a'')))],
       user_request = Missing, session_id = Missing, origin = Missing, destination = Missing,
       departure = Missing, return_date = Missing, travellers = Missing,
       flight_summary = Value ''Two nonstop options'', hotel_summary = Missing,
       activities_summary = Missing, final_itinerary = Missing,
       current_agent = Value ''flight_specialist'' \<rparr>"

text \<open>
  A node state whose newest message has a list of blocks as its content: one block of
  1030 characters of text.
\<close>

definition block_message_state :: planner_state where
  "block_message_state =
     long_message_state
       \<lparr> messages := Value [BaseMessage (Blocks [Text_block (replicate 1030 (CHR ''a''))])] \<rparr>"

text \<open>A node state whose newest message has 301 blocks as its content.\<close>

definition many_blocks_state :: planner_state where
  "many_blocks_state =
     long_message_state
       \<lparr> messages := Value [BaseMessage (Blocks (replicate 301 (Text_block ''a'')))] \<rparr>"

section \<open>The orchestrator behind the workflow\<close>

text \<open>
  Modelled from the spec: the four summary slots of the Trip State (section 3). The
  orchestrator that fills them is
  \<^verbatim>\<open>nested_agent_travel_planner\<close>, which is not among the
  sources.
\<close>

datatype slot = Flight | Hotel | Activities | Itinerary

text \<open>
  Modelled from the spec: the key of the planner state that holds a slot.
\<close>

fun slot_entry :: "slot \<Rightarrow> planner_state \<Rightarrow> string entry" where
  "slot_entry Flight s = flight_summary s"
| "slot_entry Hotel s = hotel_summary s"
| "slot_entry Activities s = activities_summary s"
| "slot_entry Itinerary s = final_itinerary s"

text \<open>Modelled from the spec: assigning a slot.\<close>

fun set_slot :: "slot \<Rightarrow> string \<Rightarrow> planner_state \<Rightarrow> planner_state" where
  "set_slot Flight v s = s \<lparr> flight_summary := Value v \<rparr>"
| "set_slot Hotel v s = s \<lparr> hotel_summary := Value v \<rparr>"
| "set_slot Activities v s = s \<lparr> activities_summary := Value v \<rparr>"
| "set_slot Itinerary v s = s \<lparr> final_itinerary := Value v \<rparr>"

text \<open>
  Modelled from the spec: a slot is set when it holds a value; it is absent while its
  key is missing or \<^verbatim>\<open>None\<close>.
\<close>

definition slot_is_set :: "slot \<Rightarrow> planner_state \<Rightarrow> bool" where
  "slot_is_set sl s = (case slot_entry sl s of Value v \<Rightarrow> True | PyNone \<Rightarrow> False | Missing \<Rightarrow> False)"

text \<open>Modelled from the spec: the message log of the Trip State.\<close>

definition message_log :: "planner_state \<Rightarrow> message list" where
  "message_log s = (case messages s of Value ms \<Rightarrow> ms | PyNone \<Rightarrow> [] | Missing \<Rightarrow> [])"

text \<open>Modelled from the spec: a log entry that is a text (section 3).\<close>

fun text_message :: "message \<Rightarrow> bool" where
  "text_message (BaseMessage (Text t)) = True"
| "text_message (BaseMessage (Blocks bs)) = False"
| "text_message OtherObject = False"

text \<open>Modelled from the spec: a Trip State whose message log holds text entries only.\<close>

definition text_log :: "planner_state \<Rightarrow> bool" where
  "text_log s = list_all text_message (message_log s)"

text \<open>
  Modelled from the spec: the message log is a sequence of text entries (section 3); new
  entries are always appended to it and never replace earlier ones (section 4.1).
\<close>

definition append_messages :: "string list \<Rightarrow> planner_state \<Rightarrow> planner_state" where
  "append_messages new s =
     s \<lparr> messages := Value (message_log s @ map (\<lambda>t. BaseMessage (Text t)) new) \<rparr>"

text \<open>
  Modelled from the spec: the agent contract of section 4.1, with the closed set of
  variants of section 9. The coordinator may only add to the message log; a specialist
  or the synthesizer owns one slot and its update is new log entries, each a text, and at
  most one value for that slot. \<open>Inl cause\<close> is an
  \<^verbatim>\<open>AgentFailure\<close>.
\<close>

datatype agent =
    Log_agent string "planner_state \<Rightarrow> string + string list"
  | Slot_agent string slot "planner_state \<Rightarrow> string + string list \<times> string option"

text \<open>Modelled from the spec: the stage name of an agent.\<close>

fun agent_name :: "agent \<Rightarrow> string" where
  "agent_name (Log_agent name execute) = name"
| "agent_name (Slot_agent name sl execute) = name"

text \<open>Modelled from the spec: the slots owned by the agents of a stage list.\<close>

fun owned_slots :: "agent list \<Rightarrow> slot list" where
  "owned_slots [] = []"
| "owned_slots (Log_agent name execute # rest) = owned_slots rest"
| "owned_slots (Slot_agent name sl execute # rest) = sl # owned_slots rest"

text \<open>
  Modelled from the spec: the \<^verbatim>\<open>OrchestratorFault\<close> of section 7.
\<close>

datatype orchestrator_fault = OrchestratorFault

text \<open>Modelled from the spec: how a run ends (sections 4.2 and 7).\<close>

datatype run_end = Completed | RecursionLimitExceeded | Failed orchestrator_fault

text \<open>
  Modelled from the spec: a \<^verbatim>\<open>StepEvent\<close> carries the stage name,
  the Trip State at that point and the step counter (section 4.2).
\<close>

record step_event =
  stage_name :: string
  snapshot :: planner_state
  step_counter :: nat

text \<open>
  Modelled from the spec: the slot is set if it is not already set; setting a slot that
  is already set is an \<^verbatim>\<open>OrchestratorFault\<close>, never an overwrite
  (sections 4.2 and 7).
\<close>

definition merge_slot ::
  "slot \<Rightarrow> string option \<Rightarrow> planner_state \<Rightarrow> orchestrator_fault + planner_state" where
  "merge_slot sl assignment s =
     (case assignment of
        None \<Rightarrow> Inr s
      | Some v \<Rightarrow> if slot_is_set sl s then Inl OrchestratorFault else Inr (set_slot sl v s))"

text \<open>
  Modelled from the spec: one stage (section 4.2). On success the update is merged; on
  an \<^verbatim>\<open>AgentFailure\<close> the failure is recorded as a message-log
  entry, the slot stays absent and the run goes on.
\<close>

fun run_stage :: "agent \<Rightarrow> planner_state \<Rightarrow> orchestrator_fault + planner_state" where
  "run_stage (Log_agent name execute) s =
     (case execute s of
        Inl cause \<Rightarrow> Inr (append_messages [cause] s)
      | Inr new \<Rightarrow> Inr (append_messages new s))"
| "run_stage (Slot_agent name sl execute) s =
     (case execute s of
        Inl cause \<Rightarrow> Inr (append_messages [cause] s)
      | Inr (new, assignment) \<Rightarrow> merge_slot sl assignment (append_messages new s))"

text \<open>
  Modelled from the spec: the algorithm of section 4.2, with \<open>n\<close> the
  running step counter. Before a stage the current-stage marker is set to its name;
  after it, one \<^verbatim>\<open>StepEvent\<close> with the next counter is emitted,
  also when the stage failed and the failure was recorded, so that the last event
  carries the final state. When the counter has reached the ceiling while stages remain,
  the run ends with \<^verbatim>\<open>RecursionLimitExceeded\<close>; an
  \<^verbatim>\<open>OrchestratorFault\<close> aborts it.
\<close>

fun run_stages ::
  "nat \<Rightarrow> nat \<Rightarrow> agent list \<Rightarrow> planner_state \<Rightarrow> step_event list \<times> run_end" where
  "run_stages stepCeiling n [] s = ([], Completed)"
| "run_stages stepCeiling n (a # rest) s =
     (if stepCeiling \<le> n then ([], RecursionLimitExceeded)
      else
        (case run_stage a (s \<lparr> current_agent := Value (agent_name a) \<rparr>) of
           Inl fault \<Rightarrow> ([], Failed fault)
         | Inr s' \<Rightarrow>
             (case run_stages stepCeiling (Suc n) rest s' of
                (events, ending) \<Rightarrow>
                  (\<lparr> stage_name = agent_name a, snapshot = s', step_counter = Suc n \<rparr> # events,
                   ending))))"

text \<open>
  Modelled from the spec: \<^verbatim>\<open>run(initialState, stageList,
  stepCeiling)\<close> of sections 4.2 and 6.
\<close>

definition run :: "planner_state \<Rightarrow> agent list \<Rightarrow> nat \<Rightarrow> step_event list \<times> run_end" where
  "run initialState stageList stepCeiling = run_stages stepCeiling 0 stageList initialState"

text \<open>
  Modelled from the spec: the stage registry of section 4.3, for any behaviour of the
  five agents; the names are those the script looks up among its containers.
\<close>

definition stage_list ::
  "(planner_state \<Rightarrow> string + string list) \<Rightarrow>
   (planner_state \<Rightarrow> string + string list \<times> string option) \<Rightarrow>
   (planner_state \<Rightarrow> string + string list \<times> string option) \<Rightarrow>
   (planner_state \<Rightarrow> string + string list \<times> string option) \<Rightarrow>
   (planner_state \<Rightarrow> string + string list \<times> string option) \<Rightarrow> agent list" where
  "stage_list coordinator flight hotel activity synthesizer =
     [Log_agent ''coordinator'' coordinator,
      Slot_agent ''flight_specialist'' Flight flight,
      Slot_agent ''hotel_specialist'' Hotel hotel,
      Slot_agent ''activity_specialist'' Activities activity,
      Slot_agent ''plan_synthesizer'' Itinerary synthesizer]"

text \<open>
  Modelled from the spec: a \<^verbatim>\<open>StepEvent\<close> reaches the consumer as
  one per-stage dictionary from the stage name to the state (section 9).
\<close>

definition as_step :: "step_event \<Rightarrow> step" where
  "as_step ev = [(stage_name ev, snapshot ev)]"

text \<open>
  Modelled from the spec: the propagation policy of section 7: a completed run and a run
  cut by the step ceiling end the event stream, an
  \<^verbatim>\<open>OrchestratorFault\<close> is surfaced to the caller.
\<close>

fun stream_end :: "run_end \<Rightarrow> exn option" where
  "stream_end Completed = None"
| "stream_end RecursionLimitExceeded = None"
| "stream_end (Failed fault) = Some (Raised ''OrchestratorFault'')"

text \<open>
  Modelled from the spec: \<^verbatim>\<open>app.stream(initial_state, config)\<close>
  when the orchestrator of section 4.2 is behind it, with the recursion limit of the
  configuration as the step ceiling (section 6).
\<close>

definition orchestrated :: "agent list \<Rightarrow> planner_state \<Rightarrow> config \<Rightarrow> event_stream" where
  "orchestrated stages s cfg =
     (map as_step (fst (run s stages (nat (recursion_limit cfg)))),
      stream_end (snd (run s stages (nat (recursion_limit cfg)))))"

text \<open>
  Modelled from the spec: a run of the script whose workflow is that orchestrator over
  the given stages.
\<close>

definition with_orchestrator :: "env \<Rightarrow> agent list \<Rightarrow> env" where
  "with_orchestrator e stages = e \<lparr> stream := orchestrated stages \<rparr>"

subsection \<open>Sample runs of the orchestrator\<close>

text \<open>A run whose stream yields six items, one more than there are agents.\<close>

definition six_events_env :: env where
  "six_events_env =
     no_events_env \<lparr> stream := (\<lambda>s c. (replicate 6 [(''coordinator'', long_message_state)], None)) \<rparr>"

text \<open>Five agents of which the hotel specialist fails and the activity specialist finds nothing.\<close>

definition hotel_fails_stages :: "agent list" where
  "hotel_fails_stages =
     stage_list
       (\<lambda>s. Inr [''Trip understood''])
       (\<lambda>s. Inr ([''Two nonstop options''], Some ''Two nonstop options''))
       (\<lambda>s. Inl ''hotel search unavailable'')
       (\<lambda>s. Inr ([], None))
       (\<lambda>s. Inr ([''Day 1: arrival''], Some ''Day 1: arrival''))"

text \<open>
  A run in which the user has moved the departure date to 361 days from today: the
  default of the return date input, five days later, lies beyond its upper bound.
\<close>

definition late_departure_env :: env where
  "late_departure_env = no_events_env \<lparr> departure_entry := Some 740361 \<rparr>"

section \<open>Facts about the script\<close>

subsection \<open>Sequencing\<close>

lemma fst_seq:
  "fst (seq m f) = fst m @ (case snd m of Inl ex \<Rightarrow> [] | Inr v \<Rightarrow> fst (f v))"
  by (cases m) (simp add: seq_def split: sum.splits prod.splits)

lemma snd_seq:
  "snd (seq m f) = (case snd m of Inl ex \<Rightarrow> Inl ex | Inr v \<Rightarrow> snd (f v))"
  by (cases m) (simp add: seq_def split: sum.splits prod.splits)

lemma fst_try_except:
  "fst (try_except body handler) =
     fst body @ (case snd body of Inl ex \<Rightarrow> fst (handler ex) | Inr v \<Rightarrow> [])"
  by (cases body) (simp add: try_except_def split: sum.splits prod.splits)

lemma snd_try_except:
  "snd (try_except body handler) =
     (case snd body of Inl ex \<Rightarrow> snd (handler ex) | Inr v \<Rightarrow> Inr v)"
  by (cases body) (simp add: try_except_def split: sum.splits prod.splits)

lemma emits_simps [simp]: "fst (emits as) = as" "snd (emits as) = Inr ()"
  by (simp_all add: emits_def)

lemma ret_simps [simp]: "fst (ret v) = []" "snd (ret v) = Inr v"
  by (simp_all add: ret_def)

lemma throw_simps [simp]: "fst (throw ex) = []" "snd (throw ex) = Inl ex"
  by (simp_all add: throw_def)

lemma lift_simps [simp]: "fst (lift r) = []" "snd (lift r) = r"
  by (simp_all add: lift_def)

lemma call_simps [simp]:
  "fst (call a outcome) = [a]"
  "snd (call a outcome) = (case outcome of None \<Rightarrow> Inr () | Some ex \<Rightarrow> Inl ex)"
  by (simp_all add: call_def)

subsection \<open>The sidebar\<close>

lemma sidebar_snd:
  "snd (sidebar e) =
     (if min_date e \<le> clock e 2 + 21 \<and> clock e 2 + 21 \<le> max_date e
         \<and> departure_date e + 5 \<le> max_date e
      then Inr (departure_date e, return_date_input e)
      else Inl StreamlitAPIException)"
  by (simp add: sidebar_def snd_seq date_input_def departure_date_def return_date_input_def)

lemma sidebar_renders_iff:
  "sidebar_renders e =
     (min_date e \<le> clock e 2 + 21 \<and> clock e 2 + 21 \<le> max_date e
      \<and> departure_date e + 5 \<le> max_date e)"
  by (simp add: sidebar_renders_def sidebar_snd)

lemma sidebar_values:
  "sidebar_renders e \<Longrightarrow> snd (sidebar e) = Inr (departure_date e, return_date_input e)"
  by (simp add: sidebar_renders_iff sidebar_snd)

lemma sidebar_raises:
  "\<not> sidebar_renders e \<Longrightarrow> snd (sidebar e) = Inl StreamlitAPIException"
  by (simp add: sidebar_renders_iff sidebar_snd)

lemma sidebar_fst:
  "fst (sidebar e) =
     Sidebar_header # Subheader_dates # (if sidebar_renders e then [Subheader_requests] else [])"
  by (simp add: sidebar_def fst_seq snd_seq date_input_def departure_date_def
      sidebar_renders_iff)

lemma main_fst:
  "fst (main e) =
     [Set_page_config, Title, Markdown_intro] @ fst (sidebar e) @
       (if sidebar_renders e
        then (if plan_button e
              then (if return_date_input e \<le> departure_date e then [Error_dates]
                    else fst (plan_trip e))
              else fst (show_welcome e))
        else [])"
proof (cases "sidebar_renders e")
  case True
  then show ?thesis by (simp add: main_def fst_seq sidebar_values)
next
  case False
  then show ?thesis by (simp add: main_def fst_seq sidebar_raises)
qed

lemma main_snd:
  "snd (main e) =
     (if sidebar_renders e
      then (if plan_button e
            then (if return_date_input e \<le> departure_date e then Inr ()
                  else snd (plan_trip e))
            else snd (show_welcome e))
      else Inl StreamlitAPIException)"
proof (cases "sidebar_renders e")
  case True
  then show ?thesis by (simp add: main_def snd_seq sidebar_values)
next
  case False
  then show ?thesis by (simp add: main_def snd_seq sidebar_raises)
qed

lemma stream_calls_sidebar: "stream_calls (fst (sidebar e)) = []"
  by (simp add: sidebar_fst)

lemma progress_values_sidebar: "progress_values (fst (sidebar e)) = []"
  by (simp add: sidebar_fst)

subsection \<open>Rejected dates\<close>

text \<open>
  C1. When the sidebar has rendered, so that there are a departure and a return date,
  the button is pressed and the return date is not after the departure date, the run
  draws the page top and the date error and returns: \<^verbatim>\<open>build_workflow\<close>,
  \<^verbatim>\<open>compile\<close> and \<^verbatim>\<open>app.stream\<close> are never called, and nothing is drawn for
  any stream item.
\<close>

theorem rejected_dates_never_reach_workflow:
  assumes "sidebar_renders e" and "plan_button e"
    and "return_date_input e \<le> departure_date e"
  shows "main e = (page_top @ [Error_dates], Inr ())
       \<and> build_calls (fst (main e)) = []
       \<and> stream_calls (fst (main e)) = []
       \<and> step_actions (fst (main e)) = []"
proof -
  have "fst (main e) = page_top @ [Error_dates]" and "snd (main e) = Inr ()"
    using assms by (simp_all add: main_fst main_snd sidebar_fst page_top_def)
  then have run: "main e = (page_top @ [Error_dates], Inr ())"
    by (simp add: prod_eq_iff)
  show ?thesis
    unfolding run by (simp add: page_top_def)
qed

theorem rejected_dates_witness:
  "sidebar_renders equal_dates_env
   \<and> plan_button equal_dates_env
   \<and> return_date_input equal_dates_env = departure_date equal_dates_env
   \<and> main equal_dates_env = (page_top @ [Error_dates], Inr ())
   \<and> build_calls (fst (main equal_dates_env)) = []
   \<and> stream_calls (fst (main equal_dates_env)) = []
   \<and> step_actions (fst (main equal_dates_env)) = []"
proof -
  have r: "sidebar_renders equal_dates_env"
    by (simp add: sidebar_renders_iff equal_dates_env_def departure_date_def
        date_value_def min_date_def max_date_def)
  have b: "plan_button equal_dates_env"
    by (simp add: equal_dates_env_def)
  have d: "return_date_input equal_dates_env = departure_date equal_dates_env"
    by (simp add: equal_dates_env_def return_date_input_def departure_date_def
        date_value_def min_date_def max_date_def)
  have le: "return_date_input equal_dates_env \<le> departure_date equal_dates_env"
    using d by simp
  show ?thesis
    using r b d rejected_dates_never_reach_workflow [OF r b le] by blast
qed

subsection \<open>The pieces of the streaming loop\<close>

lemma stream_calls_append: "stream_calls (xs @ ys) = stream_calls xs @ stream_calls ys"
  by (induction xs rule: stream_calls.induct) simp_all

lemma build_calls_append: "build_calls (xs @ ys) = build_calls xs @ build_calls ys"
  by (induction xs rule: build_calls.induct) simp_all

lemma progress_values_append:
  "progress_values (xs @ ys) = progress_values xs @ progress_values ys"
  by (induction xs rule: progress_values.induct) simp_all

lemma step_actions_append: "step_actions (xs @ ys) = step_actions xs @ step_actions ys"
  by (induction xs rule: step_actions.induct) simp_all

lemma loop_actions_no_calls:
  "list_all loop_action tr \<Longrightarrow> stream_calls tr = [] \<and> build_calls tr = []"
proof (induction tr)
  case Nil
  then show ?case by simp
next
  case (Cons a tr)
  then show ?case by (cases a) simp_all
qed

lemma itinerary_actions_quiet:
  "list_all itinerary_action tr \<Longrightarrow>
     stream_calls tr = [] \<and> build_calls tr = [] \<and> progress_values tr = []
     \<and> step_actions tr = []"
proof (induction tr)
  case Nil
  then show ?case by simp
next
  case (Cons a tr)
  then show ?case by (cases a) simp_all
qed

lemma show_latest_message_outcome:
  "snd (show_latest_message ac n ns) = Inr () \<or> snd (show_latest_message ac n ns) = Inl TypeError"
  by (cases "messages ns")
     (auto simp: show_latest_message_def snd_seq getitem_def get_def truthy_def last_item_def
           make_preview_def split: message.splits content.splits)

lemma show_latest_message_trace:
  "fst (show_latest_message ac n ns) = [] \<or>
   (\<exists>p. fst (show_latest_message ac n ns) = [Success_preview n p])"
  by (cases "messages ns")
     (auto simp: show_latest_message_def fst_seq getitem_def get_def truthy_def last_item_def
           make_preview_def split: message.splits content.splits)

lemma item_handled_empty: "\<not> item_handled ac []"
  by (simp add: item_handled_def)

lemma item_handled_item:
  "item_handled ac ((n, ns) # others) = (snd (show_latest_message ac n ns) = Inr ())"
  by (simp add: item_handled_def)

lemma show_summary_returns: "snd (show_summary h k slot) = Inr ()"
  by (cases slot) (auto simp: show_summary_def snd_seq getitem_def get_def truthy_def)

lemma show_itinerary_returns: "snd (show_itinerary e fs) = Inr ()"
  by (simp add: show_itinerary_def snd_seq show_summary_returns split: option.splits)

lemma show_latest_message_actions: "list_all loop_action (fst (show_latest_message ac n ns))"
  using show_latest_message_trace [of ac n ns] by auto

lemma show_latest_message_progress: "progress_values (fst (show_latest_message ac n ns)) = []"
  using show_latest_message_trace [of ac n ns] by auto

lemma loop_body_empty: "loop_body ac t [] l = ([], Inl StopIteration)"
  by (simp add: loop_body_def throw_def)

lemma loop_body_fst:
  "fst (loop_body ac t ((n, ns) # others) l) =
     [Progress (min (of_nat (step_count l + 1) / of_nat t) 1),
      Status_working (format_agent_name n)] @ fst (show_latest_message ac n ns)"
  by (simp add: loop_body_def Let_def fst_seq split: sum.splits)

lemma loop_body_snd:
  "snd (loop_body ac t ((n, ns) # others) l) =
     (if item_handled ac ((n, ns) # others)
      then Inr \<lparr> step_count = step_count l + 1, node_state = Some ns \<rparr>
      else Inl TypeError)"
  using show_latest_message_outcome [of ac n ns]
  by (auto simp: loop_body_def Let_def snd_seq item_handled_item)

lemma for_loop_actions: "list_all loop_action (fst (for_loop ac t steps failure l))"
proof (induction steps arbitrary: l)
  case Nil
  then show ?case by (simp split: option.splits)
next
  case (Cons step steps)
  show ?case
  proof (cases step)
    case Nil
    then show ?thesis by (simp add: fst_seq loop_body_empty)
  next
    case (Cons item others)
    obtain n ns where item: "item = (n, ns)" by (cases item)
    show ?thesis
      using Cons.IH
      by (simp add: Cons item fst_seq loop_body_fst loop_body_snd show_latest_message_actions)
  qed
qed

lemma for_loop_progress:
  "progress_values (fst (for_loop ac t steps failure l)) =
     map (shown_progress t) [step_count l + 1 ..< step_count l + 1 + progress_count ac steps]"
proof (induction steps arbitrary: l)
  case Nil
  then show ?case by (simp split: option.splits)
next
  case (Cons step steps)
  show ?case
  proof (cases step)
    case Nil
    then show ?thesis by (simp add: fst_seq loop_body_empty)
  next
    case (Cons item others)
    obtain n ns where item: "item = (n, ns)" by (cases item)
    have first: "progress_values (fst (loop_body ac t step l)) =
        [shown_progress t (step_count l + 1)]"
      by (simp add: Cons item loop_body_fst progress_values_append
          show_latest_message_progress shown_progress_def)
    show ?thesis
    proof (cases "item_handled ac step")
      case True
      have "[step_count l + 1 ..< step_count l + 1 + Suc (progress_count ac steps)] =
            (step_count l + 1) # [step_count l + 2 ..< step_count l + 2 + progress_count ac steps]"
        by (simp add: upt_rec)
      then show ?thesis
        using True first Cons.IH [of "\<lparr> step_count = step_count l + 1, node_state = Some ns \<rparr>"]
        by (simp add: Cons item fst_seq loop_body_snd progress_values_append)
    next
      case False
      then show ?thesis
        using first by (simp add: Cons item fst_seq loop_body_snd)
    qed
  qed
qed

lemma for_loop_snd:
  "snd (for_loop ac t steps failure l) =
     (if list_all (item_handled ac) steps
      then (case failure of
              None \<Rightarrow> Inr \<lparr> step_count = step_count l + length steps,
                            node_state = (if steps = [] then node_state l
                                          else Some (snd (hd (last steps)))) \<rparr>
            | Some ex \<Rightarrow> Inl ex)
      else Inl (loop_exception ac steps))"
proof (induction steps arbitrary: l)
  case Nil
  then show ?case by (simp split: option.splits)
next
  case (Cons step steps)
  show ?case
  proof (cases step)
    case Nil
    then show ?thesis by (simp add: snd_seq loop_body_empty item_handled_empty)
  next
    case (Cons item others)
    obtain n ns where item: "item = (n, ns)" by (cases item)
    show ?thesis
      using Cons.IH [of "\<lparr> step_count = step_count l + 1, node_state = Some ns \<rparr>"]
      by (simp add: Cons item snd_seq loop_body_snd split: option.splits)
  qed
qed

subsection \<open>The run as a whole\<close>

lemma show_itinerary_actions: "list_all itinerary_action (fst (show_itinerary e fs))"
proof -
  have s: "list_all itinerary_action (fst (show_summary h k slot))"
    if "itinerary_action h" for h k slot
    using that by (cases slot) (auto simp: show_summary_def fst_seq getitem_def get_def truthy_def)
  show ?thesis
    by (simp add: show_itinerary_def fst_seq show_summary_returns s split: option.splits)
qed

lemma run_workflow_fst:
  "fst (run_workflow e ac init cfg) =
     Call_stream init cfg # fst (the_loop e ac init cfg) @
       (case snd (the_loop e ac init cfg) of
          Inl ex \<Rightarrow> []
        | Inr l \<Rightarrow> [Progress 1, Status_complete] @
            (case node_state l of None \<Rightarrow> [] | Some fs \<Rightarrow> fst (show_itinerary e fs)))"
  by (simp add: run_workflow_def the_loop_def Let_def fst_seq snd_seq read_local_def
       split: sum.splits option.splits)

lemma run_workflow_snd:
  "snd (run_workflow e ac init cfg) =
     (case snd (the_loop e ac init cfg) of
        Inl ex \<Rightarrow> Inl ex
      | Inr l \<Rightarrow> (case node_state l of
                    None \<Rightarrow> Inl (UnboundLocalError ''node_state'')
                  | Some fs \<Rightarrow> Inr ()))"
  by (simp add: run_workflow_def the_loop_def Let_def snd_seq read_local_def
       show_itinerary_returns split: sum.splits option.splits)

lemma setup_monitoring_returns: "snd (setup_monitoring e) = Inr ()"
  by (simp add: setup_monitoring_def snd_try_except snd_seq split: option.splits sum.splits)

lemma setup_monitoring_fst:
  "fst (setup_monitoring e) =
     (case configure_azure_monitor e of
        Some ex \<Rightarrow> [Call_configure_azure_monitor, Warning_monitoring ex]
      | None \<Rightarrow>
          (case configure_otlp_tracing e of
             Some ex \<Rightarrow> [Call_configure_azure_monitor, Call_configure_otlp_tracing,
                         Warning_monitoring ex]
           | None \<Rightarrow> [Call_configure_azure_monitor, Call_configure_otlp_tracing]))"
  by (simp add: setup_monitoring_def fst_try_except fst_seq snd_seq split: option.splits sum.splits)

lemma create_containers_fst: "fst (create_containers xs m) = container_rows xs"
  by (induction xs arbitrary: m) (auto simp: container_rows_def fst_seq)

lemma create_containers_snd: "snd (create_containers xs m) = Inr (filled xs m)"
  by (induction xs arbitrary: m) (auto simp: filled_def snd_seq)

lemma consume_snd: "snd (consume e) = Inr ()"
  by (simp add: consume_def snd_try_except run_workflow_snd split: sum.splits option.splits)

lemma consume_fst:
  "fst (consume e) =
     fst (run_workflow e containers (initial_state e) (make_config e)) @
     (case snd (run_workflow e containers (initial_state e) (make_config e)) of
        Inl ex \<Rightarrow> [Error_planning ex, Info_check_environment]
      | Inr v \<Rightarrow> [])"
  by (simp add: consume_def fst_try_except split: sum.splits)

lemma plan_trip_fst:
  "fst (plan_trip e) =
     trip_summary e @ fst (setup_monitoring e) @ Call_build_workflow #
       (case build_workflow e of
          Some ex \<Rightarrow> []
        | None \<Rightarrow> Call_compile #
            (case compile e of
               Some ex \<Rightarrow> []
             | None \<Rightarrow> [Progress 0, Status_placeholder, Subheader_agents] @
                 container_rows (enumerate 0 agent_steps) @ fst (consume e)))"
  by (simp add: plan_trip_def fst_seq snd_seq setup_monitoring_returns trip_summary_def
       create_containers_fst create_containers_snd consume_def containers_def
       split: option.splits)

lemma plan_trip_snd:
  "snd (plan_trip e) =
     (case build_workflow e of
        Some ex \<Rightarrow> Inl ex
      | None \<Rightarrow> (case compile e of Some ex \<Rightarrow> Inl ex | None \<Rightarrow> Inr ()))"
proof -
  have "snd (plan_trip e) =
     (case build_workflow e of
        Some ex \<Rightarrow> Inl ex
      | None \<Rightarrow> (case compile e of Some ex \<Rightarrow> Inl ex | None \<Rightarrow> snd (consume e)))"
    by (simp add: plan_trip_def snd_seq setup_monitoring_returns
       create_containers_snd consume_def containers_def split: option.splits)
  then show ?thesis by (simp add: consume_snd split: option.splits)
qed

subsection \<open>What a run calls and what its progress bar shows\<close>

lemma length_agent_steps: "length agent_steps = 5"
  by (simp add: agent_steps_def)

lemma the_loop_snd:
  "snd (the_loop e containers (initial_state e) (make_config e)) =
     (if list_all (item_handled containers) (stream_items e)
      then (case stream_failure e of
              None \<Rightarrow> Inr \<lparr> step_count = length (stream_items e),
                            node_state = (if stream_items e = [] then None
                                          else Some (snd (hd (last (stream_items e))))) \<rparr>
            | Some ex \<Rightarrow> Inl ex)
      else Inl (loop_exception containers (stream_items e)))"
  by (simp add: the_loop_def for_loop_snd stream_items_def stream_failure_def
      split: option.splits)

lemma the_loop_progress:
  "progress_values (fst (the_loop e containers (initial_state e) (make_config e))) =
     map (shown_progress 5) [1 ..< 1 + handled (stream_items e)]"
  unfolding the_loop_def stream_items_def length_agent_steps handled_def
  by (simp add: for_loop_progress)

lemma stream_calls_setup_monitoring: "stream_calls (fst (setup_monitoring e)) = []"
  by (simp add: setup_monitoring_fst split: option.splits)

lemma progress_values_setup_monitoring: "progress_values (fst (setup_monitoring e)) = []"
  by (simp add: setup_monitoring_fst split: option.splits)

lemma stream_calls_container_rows: "stream_calls (container_rows xs) = []"
  by (induction xs) (auto simp: container_rows_def)

lemma progress_values_container_rows: "progress_values (container_rows xs) = []"
  by (induction xs) (auto simp: container_rows_def)

lemma stream_calls_destination_cards: "stream_calls (fst (destination_cards ds)) = []"
  by (induction ds rule: destination_cards.induct)
     (auto simp: fst_seq split: list.splits)

lemma progress_values_destination_cards: "progress_values (fst (destination_cards ds)) = []"
  by (induction ds rule: destination_cards.induct)
     (auto simp: fst_seq split: list.splits)

lemma stream_calls_consume: "stream_calls (fst (consume e)) = [(initial_state e, make_config e)]"
proof -
  have loop: "stream_calls (fst (the_loop e containers (initial_state e) (make_config e))) = []"
    using loop_actions_no_calls [OF for_loop_actions] by (simp add: the_loop_def)
  have itin: "stream_calls (fst (show_itinerary e fs)) = []" for fs
    using itinerary_actions_quiet [OF show_itinerary_actions] by simp
  show ?thesis
    by (simp add: consume_fst run_workflow_fst stream_calls_append loop itin
        split: sum.splits option.splits)
qed

lemma progress_values_consume:
  "progress_values (fst (consume e)) =
     map (shown_progress 5) [1 ..< 1 + handled (stream_items e)] @
     (if stream_completes e then [1] else [])"
proof -
  have itin: "progress_values (fst (show_itinerary e fs)) = []" for fs
    using itinerary_actions_quiet [OF show_itinerary_actions] by simp
  show ?thesis
    by (simp add: consume_fst run_workflow_fst run_workflow_snd progress_values_append
        the_loop_progress the_loop_snd itin stream_completes_def
        split: sum.splits option.splits)
qed

lemma stream_calls_main:
  "stream_calls (fst (main e)) =
     (if workflow_built e then [(initial_state e, make_config e)] else [])"
  by (simp add: main_fst plan_trip_fst show_welcome_def fst_seq stream_calls_append
      stream_calls_sidebar trip_summary_def stream_calls_setup_monitoring
      stream_calls_container_rows stream_calls_destination_cards stream_calls_consume
      workflow_built_def dates_accepted_def split: option.splits)

lemma progress_values_main:
  "progress_values (fst (main e)) =
     (if workflow_built e
      then 0 # map (shown_progress 5) [1 ..< 1 + handled (stream_items e)] @
           (if stream_completes e then [1] else [])
      else [])"
  by (simp add: main_fst plan_trip_fst show_welcome_def fst_seq progress_values_append
      progress_values_sidebar trip_summary_def progress_values_setup_monitoring
      progress_values_container_rows progress_values_destination_cards
      progress_values_consume workflow_built_def dates_accepted_def
      split: option.splits)

subsection \<open>The arguments of the workflow call\<close>

text \<open>
  C4. The configuration the script builds has recursion limit 10, and in every run
  every call of \<^verbatim>\<open>app.stream\<close> (there is one if the workflow was built, none
  otherwise) is given that configuration.
\<close>

theorem recursion_limit_is_ten:
  "recursion_limit (make_config e) = 10
   \<and> map snd (stream_calls (fst (main e))) = (if workflow_built e then [make_config e] else [])
   \<and> map (\<lambda>call. recursion_limit (snd call)) (stream_calls (fst (main e))) =
       (if workflow_built e then [10] else [])"
  by (simp add: stream_calls_main make_config_def)

text \<open>
  C6. The traveler count read from the number input is an integer from 1 to 10, it is
  stored unchanged under \<^verbatim>\<open>travellers\<close> in the initial state, and the initial state
  is the only state a run ever passes to \<^verbatim>\<open>app.stream\<close>.
\<close>

theorem travelers_between_one_and_ten:
  "1 \<le> travelers e \<and> travelers e \<le> 10
   \<and> travellers (initial_state e) = Value (travelers e)
   \<and> map fst (stream_calls (fst (main e))) = (if workflow_built e then [initial_state e] else [])"
  by (simp add: stream_calls_main initial_state_def travelers_def number_input_def
      split: option.splits)

subsection \<open>The progress bar\<close>

lemma shown_progress_mono: "j \<le> k \<Longrightarrow> shown_progress 5 j \<le> shown_progress 5 k"
  by (simp add: shown_progress_def min_def divide_le_cancel)

lemma shown_progress_bounds: "0 \<le> shown_progress 5 k \<and> shown_progress 5 k \<le> 1"
  by (simp add: shown_progress_def)

lemma sorted_shown_progress: "sorted (map (shown_progress 5) [a ..< b])"
proof -
  have "sorted_wrt (\<lambda>j k. shown_progress 5 j \<le> shown_progress 5 k) [a ..< b]"
    by (rule sorted_wrt_mono_rel [of _ "(\<le>)"]) (simp_all add: shown_progress_mono)
  then show ?thesis by (simp add: sorted_map)
qed

text \<open>
  C10. The progress bar is created at 0; after the \<open>k\<close>-th stream item it shows
  \<open>min (k / 5) 1\<close> (the quotient is the exact fraction here, Python rounds it to a
  float); after the loop has run to the end of the stream it is set to 1. So the values
  it is given never decrease and never exceed 1, however many items the stream yields.
\<close>

theorem progress_is_capped_fraction:
  "progress_values (fst (main e)) =
     (if workflow_built e
      then 0 # map (\<lambda>k. min (of_nat k / 5) 1) [1 ..< 1 + handled (stream_items e)] @
           (if stream_completes e then [1] else [])
      else [])
   \<and> sorted (progress_values (fst (main e)))
   \<and> list_all (\<lambda>p. 0 \<le> p \<and> p \<le> 1) (progress_values (fst (main e)))"
proof -
  have formula: "shown_progress 5 = (\<lambda>k. min (of_nat k / 5) 1)"
    by (rule ext) (simp add: shown_progress_def)
  have bounded: "list_all (\<lambda>p. 0 \<le> p \<and> p \<le> 1) (map (shown_progress 5) [a ..< b])" for a b
    by (simp add: list_all_iff shown_progress_bounds)
  have ordered: "sorted (progress_values (fst (main e)))"
    using sorted_shown_progress [of 1 "1 + handled (stream_items e)"]
    by (auto simp: progress_values_main sorted_append shown_progress_bounds)
  have inside: "list_all (\<lambda>p. 0 \<le> p \<and> p \<le> 1) (progress_values (fst (main e)))"
    using bounded [of 1 "1 + handled (stream_items e)"]
    by (simp add: progress_values_main)
  show ?thesis
    using ordered inside by (simp add: progress_values_main formula)
qed

subsection \<open>Exceptions\<close>

lemma no_events_env_dates: "dates_accepted no_events_env"
  by (simp add: no_events_env_def equal_dates_env_def dates_accepted_def sidebar_renders_iff
      return_date_input_def departure_date_def date_value_def min_date_def max_date_def)

lemma build_failure_env_dates: "dates_accepted build_failure_env"
  by (simp add: build_failure_env_def no_events_env_def equal_dates_env_def dates_accepted_def
      sidebar_renders_iff return_date_input_def departure_date_def date_value_def
      min_date_def max_date_def)

lemma main_snd_cases:
  "snd (main e) =
     (if dates_accepted e
      then (case build_workflow e of
              Some ex \<Rightarrow> Inl ex
            | None \<Rightarrow> (case compile e of Some ex \<Rightarrow> Inl ex | None \<Rightarrow> Inr ()))
      else if \<not> sidebar_renders e then Inl StreamlitAPIException
      else if plan_button e then Inr ()
      else snd (show_welcome e))"
  by (simp add: main_snd plan_trip_snd dates_accepted_def)

text \<open>
  C9, as stated, fails: \<^verbatim>\<open>build_workflow()\<close> and \<^verbatim>\<open>workflow.compile()\<close> are called on
  lines 167 and 168, before the \<^verbatim>\<open>try\<close> of line 199, so an exception raised while
  building the workflow leaves \<open>main\<close>.
\<close>

theorem build_failure_leaves_main:
  "snd (main build_failure_env) = Inl (Raised ''no model deployment'')"
  using build_failure_env_dates
  by (simp add: main_snd_cases) (simp add: build_failure_env_def)

lemma main_fst_built:
  "workflow_built e \<Longrightarrow>
     fst (main e) =
       page_top @ trip_summary e @ fst (setup_monitoring e) @
       [Call_build_workflow, Call_compile, Progress 0, Status_placeholder, Subheader_agents] @
       container_rows (enumerate 0 agent_steps) @ fst (consume e)"
  by (simp add: main_fst sidebar_fst page_top_def plan_trip_fst workflow_built_def
      dates_accepted_def)

text \<open>
  C9, amended. In a run that gets as far as the \<^verbatim>\<open>try\<close> statement (the sidebar has
  rendered, the dates were accepted and the workflow was built and compiled), the
  \<^verbatim>\<open>try\<close> statement never lets an instance of \<^verbatim>\<open>Exception\<close> out and \<open>main\<close>
  returns normally: every such exception raised while streaming (by the stream itself,
  while a stream item is handled, or by the read of \<^verbatim>\<open>node_state\<close>, which is
  unassigned when the stream yields nothing) is drawn as the error message followed by
  the hint to check the environment.
\<close>

theorem stream_exceptions_are_caught:
  assumes "workflow_built e"
  shows "snd (consume e) = Inr ()
       \<and> snd (main e) = Inr ()
       \<and> (\<forall>ex. snd (run_workflow e containers (initial_state e) (make_config e)) = Inl ex \<longrightarrow>
             (\<exists>tr. fst (main e) = tr @ [Error_planning ex, Info_check_environment]))
       \<and> (stream_items e = [] \<and> stream_failure e = None \<longrightarrow>
             snd (run_workflow e containers (initial_state e) (make_config e)) =
               Inl (UnboundLocalError ''node_state''))"
proof -
  have returns: "snd (main e) = Inr ()"
    using assms by (simp add: main_snd_cases workflow_built_def)
  have handled: "\<exists>tr. fst (main e) = tr @ [Error_planning ex, Info_check_environment]"
    if "snd (run_workflow e containers (initial_state e) (make_config e)) = Inl ex" for ex
  proof -
    have "fst (main e) =
        (page_top @ trip_summary e @ fst (setup_monitoring e) @
         [Call_build_workflow, Call_compile, Progress 0, Status_placeholder, Subheader_agents] @
         container_rows (enumerate 0 agent_steps) @
         fst (run_workflow e containers (initial_state e) (make_config e))) @
        [Error_planning ex, Info_check_environment]"
      using that by (simp add: main_fst_built [OF assms] consume_fst)
    then show ?thesis by blast
  qed
  have unbound: "snd (run_workflow e containers (initial_state e) (make_config e)) =
               Inl (UnboundLocalError ''node_state'')"
    if "stream_items e = []" and "stream_failure e = None"
    using that by (simp add: run_workflow_snd the_loop_snd)
  show ?thesis
    using returns handled unbound by (simp add: consume_snd)
qed

theorem stream_exceptions_witness:
  "workflow_built no_events_env
   \<and> stream_items no_events_env = [] \<and> stream_failure no_events_env = None
   \<and> snd (main no_events_env) = Inr ()
   \<and> (\<exists>tr. fst (main no_events_env) =
          tr @ [Error_planning (UnboundLocalError ''node_state''), Info_check_environment])"
proof -
  have built: "workflow_built no_events_env"
    using no_events_env_dates
    by (simp add: workflow_built_def) (simp add: no_events_env_def equal_dates_env_def)
  have items: "stream_items no_events_env = []"
    by (simp add: stream_items_def no_events_env_def equal_dates_env_def)
  have ends: "stream_failure no_events_env = None"
    by (simp add: stream_failure_def no_events_env_def equal_dates_env_def)
  show ?thesis
    using built items ends stream_exceptions_are_caught [OF built] by blast
qed

subsection \<open>The itinerary section\<close>

lemma show_summary_fst: "fst (show_summary h k slot) = summary_column h slot"
  by (cases slot) (auto simp: show_summary_def summary_column_def fst_seq getitem_def get_def truthy_def)

lemma show_itinerary_fst:
  "fst (show_itinerary e fs) =
     (case get (final_itinerary fs) of
        None \<Rightarrow> []
      | Some itinerary \<Rightarrow>
          if itinerary = [] then []
          else [Markdown_rule, Subheader_itinerary, Expander_itinerary itinerary,
                Download_button itinerary (destination_selected e) (str_date e (departure_date e)),
                Markdown_rule, Subheader_summaries] @
               summary_column Info_flight (flight_summary fs) @
               summary_column Info_hotel (hotel_summary fs) @
               summary_column Info_activities (activities_summary fs))"
  by (cases "final_itinerary fs")
     (simp_all add: show_itinerary_def get_default_def get_def fst_seq show_summary_returns
        show_summary_fst)

text \<open>
  After a loop that ran to the end of a stream with at least one item, the state whose
  itinerary is shown is the node state of the last item.
\<close>

lemma consume_fst_completes:
  "stream_completes e \<Longrightarrow> stream_items e \<noteq> [] \<Longrightarrow>
     snd (run_workflow e containers (initial_state e) (make_config e)) = Inr () \<and>
     fst (consume e) =
       Call_stream (initial_state e) (make_config e) #
       fst (the_loop e containers (initial_state e) (make_config e)) @
       [Progress 1, Status_complete] @
       fst (show_itinerary e (snd (hd (last (stream_items e)))))"
  by (simp add: consume_fst run_workflow_fst run_workflow_snd the_loop_snd stream_completes_def)

text \<open>
  C8. Showing the itinerary never raises. The itinerary section (its heading, the
  expander with the full text and the download button) is drawn exactly when the final
  state holds a non-empty \<^verbatim>\<open>final_itinerary\<close>, and nothing at all is drawn otherwise.
  Each summary heading is drawn exactly when the itinerary section is drawn and the
  summary's own slot holds a non-empty value, so only when its own slot is set.
\<close>

theorem itinerary_sections_guarded:
  "snd (show_itinerary e fs) = Inr ()
   \<and> (fst (show_itinerary e fs) = []) = (\<not> truthy (get (final_itinerary fs)))
   \<and> (Subheader_itinerary \<in> set (fst (show_itinerary e fs))) = truthy (get (final_itinerary fs))
   \<and> (Expander_itinerary t \<in> set (fst (show_itinerary e fs))) =
       (final_itinerary fs = Value t \<and> t \<noteq> [])
   \<and> (Download_button t d n \<in> set (fst (show_itinerary e fs))) =
       (final_itinerary fs = Value t \<and> t \<noteq> [] \<and> d = destination_selected e
        \<and> n = str_date e (departure_date e))
   \<and> (Info_flight \<in> set (fst (show_itinerary e fs))) =
       (truthy (get (final_itinerary fs)) \<and> truthy (get (flight_summary fs)))
   \<and> (Info_hotel \<in> set (fst (show_itinerary e fs))) =
       (truthy (get (final_itinerary fs)) \<and> truthy (get (hotel_summary fs)))
   \<and> (Info_activities \<in> set (fst (show_itinerary e fs))) =
       (truthy (get (final_itinerary fs)) \<and> truthy (get (activities_summary fs)))"
  by (cases "final_itinerary fs")
     (auto simp: show_itinerary_returns show_itinerary_fst summary_column_def get_def truthy_def
        split: option.splits)

subsection \<open>Monitoring\<close>

lemma with_monitoring_inputs:
  "plan_button (with_monitoring e m1 m2) = plan_button e"
  "departure_date (with_monitoring e m1 m2) = departure_date e"
  "return_date_input (with_monitoring e m1 m2) = return_date_input e"
  "travelers (with_monitoring e m1 m2) = travelers e"
  "build_workflow (with_monitoring e m1 m2) = build_workflow e"
  "compile (with_monitoring e m1 m2) = compile e"
  "origin_selected (with_monitoring e m1 m2) = origin_selected e"
  "destination_selected (with_monitoring e m1 m2) = destination_selected e"
  "custom_request_text (with_monitoring e m1 m2) = custom_request_text e"
  "strftime_ymd (with_monitoring e m1 m2) = strftime_ymd e"
  "str_date (with_monitoring e m1 m2) = str_date e"
  "uuid4 (with_monitoring e m1 m2) = uuid4 e"
  "stream (with_monitoring e m1 m2) = stream e"
  "DESTINATIONS (with_monitoring e m1 m2) = DESTINATIONS e"
  "sidebar (with_monitoring e m1 m2) = sidebar e"
  "sidebar_renders (with_monitoring e m1 m2) = sidebar_renders e"
  by (simp_all add: with_monitoring_def departure_date_def return_date_input_def travelers_def
      min_date_def max_date_def sidebar_def sidebar_renders_def)

lemma with_monitoring_state:
  "initial_state (with_monitoring e m1 m2) = initial_state e"
  "make_config (with_monitoring e m1 m2) = make_config e"
  by (simp_all add: initial_state_def make_config_def make_user_request_def
      with_monitoring_inputs)

lemma with_monitoring_show_itinerary:
  "show_itinerary (with_monitoring e m1 m2) fs = show_itinerary e fs"
  by (simp add: show_itinerary_def with_monitoring_inputs split: option.splits if_splits)

lemma with_monitoring_consume: "consume (with_monitoring e m1 m2) = consume e"
  by (simp add: consume_def run_workflow_def with_monitoring_state
      with_monitoring_show_itinerary with_monitoring_inputs)

lemma with_monitoring_rest:
  "trip_summary (with_monitoring e m1 m2) = trip_summary e"
  "show_welcome (with_monitoring e m1 m2) = show_welcome e"
  by (simp_all add: trip_summary_def show_welcome_def with_monitoring_inputs)

lemma setup_monitoring_filtered:
  "filter (\<lambda>a. \<not> is_monitoring a) (fst (setup_monitoring e)) = []"
  by (simp add: setup_monitoring_fst split: option.splits)

lemma main_without_monitoring:
  "filter (\<lambda>a. \<not> is_monitoring a) (fst (main (with_monitoring e m1 m2))) =
   filter (\<lambda>a. \<not> is_monitoring a) (fst (main e))"
  by (simp add: main_fst plan_trip_fst with_monitoring_inputs with_monitoring_rest
      with_monitoring_consume setup_monitoring_filtered split: option.splits)

text \<open>
  C7. Whatever the two monitoring calls do, \<^verbatim>\<open>setup_monitoring\<close> returns normally:
  an exception of either call is caught and drawn as one warning, and nothing else is
  drawn. The rest of the run does not depend on it: \<open>main\<close> ends the same way, the run
  without its monitoring actions is the same, \<^verbatim>\<open>app.stream\<close> is called with the same
  state and configuration, and the \<^verbatim>\<open>try\<close> statement around the stream runs the same.
\<close>

theorem monitoring_failure_is_absorbed:
  "snd (setup_monitoring (with_monitoring e m1 m2)) = Inr ()
   \<and> fst (setup_monitoring (with_monitoring e m1 m2)) =
       (case m1 of
          Some ex \<Rightarrow> [Call_configure_azure_monitor, Warning_monitoring ex]
        | None \<Rightarrow>
            (case m2 of
               Some ex \<Rightarrow> [Call_configure_azure_monitor, Call_configure_otlp_tracing,
                           Warning_monitoring ex]
             | None \<Rightarrow> [Call_configure_azure_monitor, Call_configure_otlp_tracing]))
   \<and> snd (main (with_monitoring e m1 m2)) = snd (main e)
   \<and> filter (\<lambda>a. \<not> is_monitoring a) (fst (main (with_monitoring e m1 m2))) =
       filter (\<lambda>a. \<not> is_monitoring a) (fst (main e))
   \<and> stream_calls (fst (main (with_monitoring e m1 m2))) = stream_calls (fst (main e))
   \<and> consume (with_monitoring e m1 m2) = consume e"
proof -
  have absorbed: "snd (setup_monitoring (with_monitoring e m1 m2)) = Inr ()"
    by (rule setup_monitoring_returns)
  have drawn: "fst (setup_monitoring (with_monitoring e m1 m2)) =
       (case m1 of
          Some ex \<Rightarrow> [Call_configure_azure_monitor, Warning_monitoring ex]
        | None \<Rightarrow>
            (case m2 of
               Some ex \<Rightarrow> [Call_configure_azure_monitor, Call_configure_otlp_tracing,
                           Warning_monitoring ex]
             | None \<Rightarrow> [Call_configure_azure_monitor, Call_configure_otlp_tracing]))"
    by (simp add: setup_monitoring_fst with_monitoring_def split: option.splits)
  have outcome: "snd (main (with_monitoring e m1 m2)) = snd (main e)"
    by (simp add: main_snd plan_trip_snd with_monitoring_inputs with_monitoring_rest
        split: option.splits)
  have built: "workflow_built (with_monitoring e m1 m2) = workflow_built e"
    by (simp add: workflow_built_def dates_accepted_def with_monitoring_inputs)
  have streams: "stream_calls (fst (main (with_monitoring e m1 m2))) = stream_calls (fst (main e))"
    by (simp add: stream_calls_main built with_monitoring_state)
  show ?thesis
    using absorbed drawn outcome streams
    by (simp add: main_without_monitoring with_monitoring_consume)
qed

subsection \<open>The preview of the newest message\<close>

text \<open>
  For a message whose content is a string the preview is as intended: the whole string
  when it has at most 300 characters, otherwise its first 300 followed by three dots.
\<close>

lemma text_preview_is_first_300_characters:
  assumes "messages ns = Value ms" and "ms \<noteq> []" and "last ms = BaseMessage (Text s)"
  shows "show_latest_message ac n ns =
           ((if ac n \<noteq> None
             then [Success_preview n
                     (Text (if length s \<le> 300 then s else take 300 s @ ''...''))]
             else []), Inr ())"
  using assms
  by (simp add: show_latest_message_def get_def truthy_def getitem_def last_item_def
      seq_def lift_def emits_def ret_def make_preview_def)

lemma flight_specialist_has_container: "containers ''flight_specialist'' \<noteq> None"
  by (simp add: containers_def filled_def agent_steps_def enumerate_eq_zip upt_rec)

text \<open>
  C5 fails on the code for a message whose content is a list of blocks, which line 222
  treats like a string. For a list of at most 300 blocks the preview is the whole
  content, however long its text is: here one block of 1030 characters is shown in
  full. For a list of more than 300 blocks the concatenation with the three dots
  raises a \<^verbatim>\<open>TypeError\<close> and nothing is shown.
\<close>

theorem block_content_is_not_cut:
  "show_latest_message containers ''flight_specialist'' block_message_state =
     ([Success_preview ''flight_specialist'' (Blocks [Text_block (replicate 1030 (CHR ''a''))])],
      Inr ())
   \<and> text_length (Blocks [Text_block (replicate 1030 (CHR ''a''))]) = 1030
   \<and> show_latest_message containers ''flight_specialist'' many_blocks_state =
       ([], Inl TypeError)"
  using flight_specialist_has_container
  by (simp add: show_latest_message_def get_def truthy_def getitem_def last_item_def
      seq_def lift_def emits_def ret_def make_preview_def block_message_state_def
      many_blocks_state_def long_message_state_def)

subsection \<open>One event for each stage\<close>

lemma slot_entry_set_slot:
  "slot_entry sl (set_slot sl' v s) = (if sl = sl' then Value v else slot_entry sl s)"
  by (cases sl; cases sl') simp_all

lemma slot_entry_append_messages: "slot_entry sl (append_messages new s) = slot_entry sl s"
  by (cases sl) (simp_all add: append_messages_def)

lemma slot_entry_current_agent: "slot_entry sl (s \<lparr> current_agent := c \<rparr>) = slot_entry sl s"
  by (cases sl) simp_all

lemma run_stage_log: "\<exists>s'. run_stage (Log_agent name execute) s = Inr s' \<and> (\<forall>sl. slot_entry sl s' = slot_entry sl s)"
  by (auto simp: slot_entry_append_messages split: sum.splits)

lemma run_stage_slot:
  "\<not> slot_is_set sl s \<Longrightarrow>
     \<exists>s'. run_stage (Slot_agent name sl execute) s = Inr s' \<and>
          (\<forall>sl'. sl' \<noteq> sl \<longrightarrow> slot_entry sl' s' = slot_entry sl' s)"
  by (auto simp: merge_slot_def slot_is_set_def slot_entry_append_messages slot_entry_set_slot
      split: sum.splits option.splits prod.splits)

lemma run_stages_complete:
  "distinct (owned_slots stages) \<Longrightarrow>
   \<forall>sl \<in> set (owned_slots stages). \<not> slot_is_set sl s \<Longrightarrow>
   n + length stages \<le> stepCeiling \<Longrightarrow>
     map stage_name (fst (run_stages stepCeiling n stages s)) = map agent_name stages \<and>
     map step_counter (fst (run_stages stepCeiling n stages s)) = [Suc n ..< Suc n + length stages] \<and>
     snd (run_stages stepCeiling n stages s) = Completed"
proof (induction stages arbitrary: n s)
  case Nil
  then show ?case by simp
next
  case (Cons a rest)
  let ?s = "s \<lparr> current_agent := Value (agent_name a) \<rparr>"
  have "\<exists>s'. run_stage a ?s = Inr s' \<and> distinct (owned_slots rest) \<and>
          (\<forall>sl \<in> set (owned_slots rest). \<not> slot_is_set sl s')"
  proof (cases a)
    case (Log_agent name execute)
    obtain s' where s': "run_stage (Log_agent name execute) ?s = Inr s'"
        "\<forall>sl. slot_entry sl s' = slot_entry sl ?s"
      using run_stage_log by blast
    then show ?thesis
      using Cons.prems Log_agent by (auto simp: slot_is_set_def slot_entry_current_agent)
  next
    case (Slot_agent name sl execute)
    have "\<not> slot_is_set sl ?s"
      using Cons.prems Slot_agent by (simp add: slot_is_set_def slot_entry_current_agent)
    then obtain s' where s': "run_stage (Slot_agent name sl execute) ?s = Inr s'"
        "\<forall>sl'. sl' \<noteq> sl \<longrightarrow> slot_entry sl' s' = slot_entry sl' ?s"
      using run_stage_slot by blast
    then show ?thesis
      using Cons.prems Slot_agent by (auto simp: slot_is_set_def slot_entry_current_agent)
  qed
  then obtain s' where s': "run_stage a ?s = Inr s'" "distinct (owned_slots rest)"
      "\<forall>sl \<in> set (owned_slots rest). \<not> slot_is_set sl s'"
    by blast
  have "Suc n + length rest \<le> stepCeiling"
    using Cons.prems by simp
  from Cons.IH [OF s'(2) s'(3) this]
  have ih: "map stage_name (fst (run_stages stepCeiling (Suc n) rest s')) = map agent_name rest"
    "map step_counter (fst (run_stages stepCeiling (Suc n) rest s')) =
       [Suc (Suc n) ..< Suc (Suc n) + length rest]"
    "snd (run_stages stepCeiling (Suc n) rest s') = Completed"
    by simp_all
  obtain events ending where r: "run_stages stepCeiling (Suc n) rest s' = (events, ending)"
    by (cases "run_stages stepCeiling (Suc n) rest s'")
  have "\<not> stepCeiling \<le> n"
    using Cons.prems by simp
  then have run: "run_stages stepCeiling n (a # rest) s =
      (\<lparr> stage_name = agent_name a, snapshot = s', step_counter = Suc n \<rparr> # events, ending)"
    using s'(1) r by simp
  have "Suc n < Suc n + length (a # rest)"
    by simp
  then have "[Suc n ..< Suc n + length (a # rest)] =
      Suc n # [Suc (Suc n) ..< Suc n + length (a # rest)]"
    by (rule upt_conv_Cons)
  moreover have "Suc n + length (a # rest) = Suc (Suc n) + length rest"
    by simp
  ultimately have counters: "[Suc n ..< Suc n + length (a # rest)] =
      Suc n # [Suc (Suc n) ..< Suc (Suc n) + length rest]"
    by (simp only:)
  show ?case
    unfolding run counters using ih r by auto
qed

lemma text_log_initial_state: "text_log (initial_state e)"
  by (simp add: text_log_def message_log_def initial_state_def)

lemma text_log_append_messages: "text_log s \<Longrightarrow> text_log (append_messages new s)"
  by (cases "messages s") (auto simp: text_log_def message_log_def append_messages_def list_all_iff)

lemma text_log_current_agent: "text_log (s \<lparr> current_agent := c \<rparr>) = text_log s"
  by (simp add: text_log_def message_log_def)

lemma text_log_set_slot: "text_log (set_slot sl v s) = text_log s"
  by (cases sl) (simp_all add: text_log_def message_log_def)

lemma run_stage_text_log: "text_log s \<Longrightarrow> run_stage a s = Inr s' \<Longrightarrow> text_log s'"
  by (cases a)
     (auto simp: merge_slot_def text_log_append_messages text_log_set_slot
        split: sum.splits option.splits if_splits)

lemma run_stages_text_log:
  "text_log s \<Longrightarrow>
     list_all (\<lambda>ev. text_log (snapshot ev)) (fst (run_stages stepCeiling n stages s))"
proof (induction stages arbitrary: n s)
  case Nil
  then show ?case by simp
next
  case (Cons a rest)
  show ?case
  proof (cases "run_stage a (s \<lparr> current_agent := Value (agent_name a) \<rparr>)")
    case (Inl fault)
    then show ?thesis by simp
  next
    case (Inr s')
    have "text_log s'"
      using run_stage_text_log [OF _ Inr] Cons.prems by (simp add: text_log_current_agent)
    then show ?thesis
      using Cons.IH [of s' "Suc n"] Inr by (auto split: prod.splits)
  qed
qed

lemma show_latest_message_text_log:
  "text_log ns \<Longrightarrow> snd (show_latest_message ac n ns) = Inr ()"
proof (cases "messages ns")
  case Missing
  then show ?thesis by (simp add: show_latest_message_def get_def truthy_def)
next
  case PyNone
  then show ?thesis by (simp add: show_latest_message_def get_def truthy_def)
next
  case (Value ms)
  assume "text_log ns"
  then have all: "list_all text_message ms"
    using Value by (simp add: text_log_def message_log_def)
  show ?thesis
  proof (cases "ms = []")
    case True
    then show ?thesis using Value by (simp add: show_latest_message_def get_def truthy_def)
  next
    case False
    then have "text_message (last ms)"
      using all by (simp add: list_all_iff)
    then obtain t where "last ms = BaseMessage (Text t)"
      by (cases "last ms" rule: text_message.cases) simp_all
    then show ?thesis
      using Value False
      by (simp add: show_latest_message_def get_def truthy_def getitem_def last_item_def
          snd_seq make_preview_def)
  qed
qed

lemma progress_count_all:
  "list_all (item_handled ac) steps \<Longrightarrow> progress_count ac steps = length steps"
  by (induction steps) (auto simp: item_handled_empty)

lemma count_after_handled:
  "list_all (item_handled containers) steps \<Longrightarrow> k \<le> length steps \<Longrightarrow>
     count_after steps k = Inr k"
proof -
  assume all: "list_all (item_handled containers) steps" and k: "k \<le> length steps"
  have "list_all (item_handled containers) (take k steps)"
    using all by (auto simp: list_all_iff dest: in_set_takeD)
  then show ?thesis
    using k by (simp add: count_after_def for_loop_snd min_def)
qed

lemma with_orchestrator_inputs:
  "plan_button (with_orchestrator e stages) = plan_button e"
  "departure_date (with_orchestrator e stages) = departure_date e"
  "return_date_input (with_orchestrator e stages) = return_date_input e"
  "travelers (with_orchestrator e stages) = travelers e"
  "build_workflow (with_orchestrator e stages) = build_workflow e"
  "compile (with_orchestrator e stages) = compile e"
  "origin_selected (with_orchestrator e stages) = origin_selected e"
  "destination_selected (with_orchestrator e stages) = destination_selected e"
  "custom_request_text (with_orchestrator e stages) = custom_request_text e"
  "strftime_ymd (with_orchestrator e stages) = strftime_ymd e"
  "uuid4 (with_orchestrator e stages) = uuid4 e"
  "stream (with_orchestrator e stages) = orchestrated stages"
  "sidebar_renders (with_orchestrator e stages) = sidebar_renders e"
  by (simp_all add: with_orchestrator_def departure_date_def return_date_input_def travelers_def
      min_date_def max_date_def sidebar_def sidebar_renders_def)

lemma with_orchestrator_state:
  "initial_state (with_orchestrator e stages) = initial_state e"
  "make_config (with_orchestrator e stages) = make_config e"
  "workflow_built (with_orchestrator e stages) = workflow_built e"
  by (simp_all add: initial_state_def make_config_def make_user_request_def workflow_built_def
      dates_accepted_def with_orchestrator_inputs)

lemma five_stages_complete:
  "map stage_name (fst (run (initial_state e) (stage_list c f h a p) 10)) = agent_steps \<and>
   map step_counter (fst (run (initial_state e) (stage_list c f h a p) 10)) = [1, 2, 3, 4, 5] \<and>
   snd (run (initial_state e) (stage_list c f h a p) 10) = Completed"
proof -
  have d: "distinct (owned_slots (stage_list c f h a p))"
    by (simp add: stage_list_def)
  have u: "\<forall>sl \<in> set (owned_slots (stage_list c f h a p)). \<not> slot_is_set sl (initial_state e)"
    by (simp add: stage_list_def slot_is_set_def initial_state_def)
  have l: "0 + length (stage_list c f h a p) \<le> 10"
    by (simp add: stage_list_def)
  have names: "map agent_name (stage_list c f h a p) = agent_steps"
    by (simp add: stage_list_def agent_steps_def)
  have counters: "[Suc 0 ..< Suc 0 + length (stage_list c f h a p)] = [1, 2, 3, 4, 5]"
    by (simp add: stage_list_def upt_rec)
  show ?thesis
    using run_stages_complete [OF d u l] names counters by (simp add: run_def)
qed

lemma orchestrated_items:
  "stream_items (with_orchestrator e (stage_list c f h a p)) =
     map as_step (fst (run (initial_state e) (stage_list c f h a p) 10))"
  by (simp add: stream_items_def with_orchestrator_inputs with_orchestrator_state
      orchestrated_def make_config_def)

lemma orchestrated_end:
  "stream_failure (with_orchestrator e (stage_list c f h a p)) = None"
  using five_stages_complete [of e c f h a p]
  by (simp add: stream_failure_def with_orchestrator_inputs with_orchestrator_state
      orchestrated_def make_config_def)

text \<open>
  C2. With the orchestrator of the specification behind \<^verbatim>\<open>app.stream\<close>, whatever the
  five agents do (succeed, assign their slot or not, fail), a run of the five-stage list
  from the script's initial state under the script's step ceiling of 10 completes and
  emits exactly one event for each stage, in the declared order, with step counters 1
  to 5. The consumer receives these five items and nothing else; its own step count is
  1 after the first item and grows by exactly 1 with each further item, and its progress
  bar shows one fifth more after each.
\<close>

theorem one_event_per_stage_counted_from_one:
  "map stage_name (fst (run (initial_state e) (stage_list c f h a p) 10)) = agent_steps
   \<and> map step_counter (fst (run (initial_state e) (stage_list c f h a p) 10)) = [1, 2, 3, 4, 5]
   \<and> snd (run (initial_state e) (stage_list c f h a p) 10) = Completed
   \<and> map (map fst) (stream_items (with_orchestrator e (stage_list c f h a p))) =
       map (\<lambda>name. [name]) agent_steps
   \<and> stream_failure (with_orchestrator e (stage_list c f h a p)) = None
   \<and> map (count_after (stream_items (with_orchestrator e (stage_list c f h a p))))
         [1, 2, 3, 4, 5] = [Inr 1, Inr 2, Inr 3, Inr 4, Inr 5]
   \<and> progress_values (fst (main (with_orchestrator e (stage_list c f h a p)))) =
       (if workflow_built e then [0, 1 / 5, 2 / 5, 3 / 5, 4 / 5, 1, 1] else [])"
proof -
  let ?events = "fst (run (initial_state e) (stage_list c f h a p) 10)"
  let ?env = "with_orchestrator e (stage_list c f h a p)"
  have run: "map stage_name ?events = agent_steps" "map step_counter ?events = [1, 2, 3, 4, 5]"
      "snd (run (initial_state e) (stage_list c f h a p) 10) = Completed"
    using five_stages_complete [of e c f h a p] by simp_all
  have items: "stream_items ?env = map as_step ?events"
    by (rule orchestrated_items)
  have len: "length (stream_items ?env) = 5"
    using arg_cong [OF run(2), of length] by (simp add: items)
  have "list_all (\<lambda>ev. text_log (snapshot ev)) ?events"
    using run_stages_text_log [OF text_log_initial_state] by (simp add: run_def)
  then have full: "list_all (item_handled containers) (stream_items ?env)"
    by (simp add: items list_all_iff as_step_def item_handled_item show_latest_message_text_log)
  have names: "map (map fst) (stream_items ?env) = map (\<lambda>name. [name]) agent_steps"
    using arg_cong [OF run(1), of "map (\<lambda>name. [name])"]
    by (simp add: items as_step_def comp_def)
  have counts: "map (count_after (stream_items ?env)) [1, 2, 3, 4, 5] =
      [Inr 1, Inr 2, Inr 3, Inr 4, Inr 5]"
    using count_after_handled [OF full] len by simp
  have handled: "handled (stream_items ?env) = 5"
    using progress_count_all [OF full] len by (simp add: handled_def)
  have completes: "stream_completes ?env"
    using full by (simp add: stream_completes_def orchestrated_end)
  have shown: "map (shown_progress 5) [1 ..< 1 + 5] = [1 / 5, 2 / 5, 3 / 5, 4 / 5, 1]"
    by (simp add: shown_progress_def upt_rec)
  have progress: "progress_values (fst (main ?env)) =
       (if workflow_built e then [0, 1 / 5, 2 / 5, 3 / 5, 4 / 5, 1, 1] else [])"
    using shown by (simp add: progress_values_main with_orchestrator_state handled completes)
  show ?thesis
    using run names counts progress orchestrated_end [of e c f h a p] by blast
qed

subsection \<open>The sample runs\<close>

lemma no_events_env_built: "workflow_built no_events_env"
  using no_events_env_dates
  by (simp add: workflow_built_def) (simp add: no_events_env_def equal_dates_env_def)

lemma six_events_env_built: "workflow_built six_events_env"
  using no_events_env_built
  by (simp add: six_events_env_def workflow_built_def dates_accepted_def departure_date_def
      return_date_input_def min_date_def max_date_def sidebar_renders_iff)

text \<open>The run with the default entries calls the stream once, with limit 10 and two travelers.\<close>

theorem recursion_limit_witness:
  "workflow_built no_events_env
   \<and> map (\<lambda>call. recursion_limit (snd call)) (stream_calls (fst (main no_events_env))) = [10]"
  using no_events_env_built recursion_limit_is_ten [of no_events_env] by simp

theorem travelers_witness:
  "travelers no_events_env = 2
   \<and> map (\<lambda>s. travellers s) (map fst (stream_calls (fst (main no_events_env)))) = [Value 2]"
proof -
  have t: "travelers no_events_env = 2"
    by (simp add: travelers_def number_input_def no_events_env_def equal_dates_env_def)
  show ?thesis
    using t no_events_env_built travelers_between_one_and_ten [of no_events_env] by simp
qed

text \<open>Six stream items: the bar reaches 1 at the fifth and stays there.\<close>

theorem progress_witness:
  "workflow_built six_events_env
   \<and> progress_values (fst (main six_events_env)) = [0, 1 / 5, 2 / 5, 3 / 5, 4 / 5, 1, 1, 1]"
proof -
  have items: "stream_items six_events_env = replicate 6 [(''coordinator'', long_message_state)]"
    by (simp add: stream_items_def six_events_env_def)
  have "text_log long_message_state"
    by (simp add: text_log_def message_log_def long_message_state_def)
  then have full: "list_all (item_handled containers) (stream_items six_events_env)"
    by (simp add: items list_all_iff item_handled_item show_latest_message_text_log)
  have h: "handled (stream_items six_events_env) = 6"
    using progress_count_all [OF full] by (simp add: handled_def items)
  have c: "stream_completes six_events_env"
    using full by (simp add: stream_completes_def)
       (simp add: stream_failure_def six_events_env_def)
  have v: "map (\<lambda>k. min (rat_of_nat k / 5) 1) [Suc 0 ..< 7] = [1 / 5, 2 / 5, 3 / 5, 4 / 5, 1, 1]"
    by (simp add: upt_rec)
  show ?thesis
    using six_events_env_built progress_is_capped_fraction [of six_events_env]
    by (simp add: h c v)
qed

text \<open>The first monitoring call raises: one warning, and the stream is called all the same.\<close>

theorem monitoring_witness:
  "fst (setup_monitoring (with_monitoring no_events_env (Some (Raised ''no connection string'')) None)) =
     [Call_configure_azure_monitor, Warning_monitoring (Raised ''no connection string'')]
   \<and> snd (main (with_monitoring no_events_env (Some (Raised ''no connection string'')) None)) = Inr ()
   \<and> stream_calls (fst (main (with_monitoring no_events_env (Some (Raised ''no connection string'')) None))) =
       [(initial_state no_events_env, make_config no_events_env)]"
proof -
  have r: "snd (main no_events_env) = Inr ()"
    using no_events_env_built by (simp add: main_snd_cases workflow_built_def)
  have s: "stream_calls (fst (main no_events_env)) =
      [(initial_state no_events_env, make_config no_events_env)]"
    using no_events_env_built by (simp add: stream_calls_main)
  show ?thesis
    using r s monitoring_failure_is_absorbed
      [of no_events_env "Some (Raised ''no connection string'')" None]
    by simp
qed

text \<open>The hotel specialist fails: still five events, named and counted in order.\<close>

theorem one_event_per_stage_witness:
  "workflow_built no_events_env
   \<and> map stage_name (fst (run (initial_state no_events_env) hotel_fails_stages 10)) = agent_steps
   \<and> map step_counter (fst (run (initial_state no_events_env) hotel_fails_stages 10)) =
       [1, 2, 3, 4, 5]
   \<and> progress_values (fst (main (with_orchestrator no_events_env hotel_fails_stages))) =
       [0, 1 / 5, 2 / 5, 3 / 5, 4 / 5, 1, 1]"
  unfolding hotel_fails_stages_def
  using no_events_env_built
    one_event_per_stage_counted_from_one [of no_events_env
      "\<lambda>s. Inr [''Trip understood'']"
      "\<lambda>s. Inr ([''Two nonstop options''], Some ''Two nonstop options'')"
      "\<lambda>s. Inl ''hotel search unavailable''"
      "\<lambda>s. Inr ([], None)"
      "\<lambda>s. Inr ([''Day 1: arrival''], Some ''Day 1: arrival'')"]
  by simp

subsection \<open>A sidebar that raises\<close>

text \<open>
  With the departure date within five days of the upper bound the return date input
  raises, outside any \<^verbatim>\<open>try\<close>: the run ends in the sidebar.
\<close>

lemma late_departure_raises:
  "departure_date late_departure_env = 740361
   \<and> main late_departure_env =
       ([Set_page_config, Title, Markdown_intro, Sidebar_header, Subheader_dates],
        Inl StreamlitAPIException)"
proof -
  have d: "departure_date late_departure_env = 740361"
    by (simp add: late_departure_env_def no_events_env_def equal_dates_env_def
        departure_date_def date_value_def min_date_def max_date_def)
  have r: "\<not> sidebar_renders late_departure_env"
    by (simp add: sidebar_renders_iff d) 
       (simp add: late_departure_env_def no_events_env_def equal_dates_env_def max_date_def min_date_def)
  show ?thesis
    using d r by (simp add: prod_eq_iff main_fst main_snd sidebar_fst)
qed

subsection \<open>The stage sequence\<close>

lemma run_stages_in_order:
  "map stage_name (fst (run_stages stepCeiling n stages s)) =
     take (length (fst (run_stages stepCeiling n stages s))) (map agent_name stages)"
proof (induction stages arbitrary: n s)
  case Nil
  then show ?case by simp
next
  case (Cons a rest)
  show ?case
  proof (cases "run_stage a (s \<lparr> current_agent := Value (agent_name a) \<rparr>)")
    case (Inl fault)
    then show ?thesis by simp
  next
    case (Inr s')
    then show ?thesis
      using Cons.IH [of "Suc n" s'] by (auto split: prod.splits)
  qed
qed

text \<open>
  C3. The stage registry is the list of the five agents coordinator, flight specialist,
  hotel specialist, activity specialist and plan synthesizer, in this order, whatever
  the agents do and whatever the run is. The orchestrator goes through the stages in
  this order and never skips, repeats or reorders one: for any state and any step
  ceiling the stages a run has been through are an initial segment of the list, and from
  the script's initial state under the script's ceiling of 10 they are the whole list.
  The script's own list of agent names, from which it creates its containers, is this
  same constant list.
\<close>

theorem stage_sequence_is_fixed:
  "map agent_name (stage_list c f h a p) = agent_steps
   \<and> agent_steps = [''coordinator'', ''flight_specialist'', ''hotel_specialist'',
                    ''activity_specialist'', ''plan_synthesizer'']
   \<and> length (stage_list c f h a p) = 5
   \<and> distinct agent_steps
   \<and> map stage_name (fst (run s (stage_list c f h a p) stepCeiling)) =
       take (length (fst (run s (stage_list c f h a p) stepCeiling))) agent_steps
   \<and> map stage_name (fst (run (initial_state e) (stage_list c f h a p) 10)) = agent_steps
   \<and> dom containers = set agent_steps"
proof -
  have names: "map agent_name (stage_list c f h a p) = agent_steps"
    by (simp add: stage_list_def agent_steps_def)
  have order: "map stage_name (fst (run s (stage_list c f h a p) stepCeiling)) =
       take (length (fst (run s (stage_list c f h a p) stepCeiling))) agent_steps"
    using run_stages_in_order [of stepCeiling 0 "stage_list c f h a p" s]
    by (simp add: run_def names)
  have whole: "map stage_name (fst (run (initial_state e) (stage_list c f h a p) 10)) = agent_steps"
    using five_stages_complete [of e c f h a p] by simp
  have keys: "dom containers = set agent_steps"
    by (auto simp: containers_def filled_def agent_steps_def enumerate_eq_zip upt_rec
        split: if_splits)
  have five: "length (stage_list c f h a p) = 5"
    by (simp add: stage_list_def)
  have literal: "agent_steps = [''coordinator'', ''flight_specialist'', ''hotel_specialist'',
                    ''activity_specialist'', ''plan_synthesizer''] \<and> distinct agent_steps"
    by (simp add: agent_steps_def)
  show ?thesis
    using names order whole keys five literal by blast
qed

text \<open>Under a ceiling of 2 the run goes through the first two stages, under 10 through all.\<close>

lemma two_stage_run_length:
  "length (fst (run (initial_state no_events_env) hotel_fails_stages 2)) = 2"
  by (simp add: run_def hotel_fails_stages_def stage_list_def merge_slot_def slot_is_set_def
      append_messages_def initial_state_def)

theorem stage_sequence_witness:
  "map stage_name (fst (run (initial_state no_events_env) hotel_fails_stages 2)) =
     [''coordinator'', ''flight_specialist'']
   \<and> map stage_name (fst (run (initial_state no_events_env) hotel_fails_stages 10)) =
       [''coordinator'', ''flight_specialist'', ''hotel_specialist'',
        ''activity_specialist'', ''plan_synthesizer'']"
  unfolding hotel_fails_stages_def
  using two_stage_run_length
    stage_sequence_is_fixed [of
      "\<lambda>s. Inr [''Trip understood'']"
      "\<lambda>s. Inr ([''Two nonstop options''], Some ''Two nonstop options'')"
      "\<lambda>s. Inl ''hotel search unavailable''"
      "\<lambda>s. Inr ([], None)"
      "\<lambda>s. Inr ([''Day 1: arrival''], Some ''Day 1: arrival'')"
      "initial_state no_events_env" 2 no_events_env]
  by (simp add: hotel_fails_stages_def agent_steps_def)

end
